theory Spec2Isabelle
  imports Main "HOL-Library.Log_Nat" "HOL-Library.Word"
begin

unbundle bit_operations_syntax

section \<open>Single-precision arithmetic\<close>

text \<open>
  The SDK computes angles, step counts and command values in C \<^verbatim>\<open>float\<close>. A finite
  \<^verbatim>\<open>float\<close> is a rational number, and every arithmetic operation returns the exact
  result rounded to the nearest value with a 24-bit significand, ties to even
  (IEEE 754 binary32, including the subnormal range whose unit is \<open>2 powi -149\<close>).
  \<open>fl32\<close> is that rounding. The type \<open>float\<close> holds the finite values only. The SDK meets
  an infinity or a NaN at three places, each written out where it occurs: a frame
  that \<^verbatim>\<open>sscanf\<close> reads as one (\<open>fpvalue\<close> below), the division by zero of
  \<^verbatim>\<open>QueryStatus\<close> (\<open>status_stepSize\<close> below), and a product of magnitude \<open>2 ^ 128\<close> and
  more, which the hardware turns into an infinity and \<open>fl32\<close> leaves finite. Every
  product of the SDK is the operand of a cast to \<^verbatim>\<open>int\<close>, and that cast gives
  \<^verbatim>\<open>INT_MIN\<close> for the infinity as for the finite value. The arguments of the API are
  taken to be finite, and the two zeros of binary32 are one value.
\<close>

type_synonym float = rat

definition ilog2 :: "rat \<Rightarrow> int" where
  "ilog2 x = (let (p, q) = quotient_of \<bar>x\<bar>; k = bitlen p - bitlen q
              in if (2::rat) powi k \<le> \<bar>x\<bar> then k else k - 1)"

definition rne :: "rat \<Rightarrow> int" where
  "rne x = (let n = \<lfloor>x\<rfloor>; f = x - of_int n
            in if f < 1/2 then n else if 1/2 < f then n + 1
               else if even n then n else n + 1)"

definition ulp32 :: "rat \<Rightarrow> rat" where
  "ulp32 x = 2 powi (max (ilog2 x - 23) (- 149))"

definition fl32 :: "rat \<Rightarrow> float" where
  "fl32 x = (if x = 0 then 0 else of_int (rne (x / ulp32 x)) * ulp32 x)"

definition fadd :: "float \<Rightarrow> float \<Rightarrow> float" where
  "fadd a b = fl32 (a + b)"

definition fsub :: "float \<Rightarrow> float \<Rightarrow> float" where
  "fsub a b = fl32 (a - b)"

definition fmul :: "float \<Rightarrow> float \<Rightarrow> float" where
  "fmul a b = fl32 (a * b)"

text \<open>Division by a non-zero divisor; the caller handles a zero divisor.\<close>

definition fdiv :: "float \<Rightarrow> float \<Rightarrow> float" where
  "fdiv a b = fl32 (a / b)"

text \<open>The conversion of an \<^verbatim>\<open>int\<close> operand to \<^verbatim>\<open>float\<close>.\<close>

definition int_to_float :: "int \<Rightarrow> float" where
  "int_to_float n = fl32 (of_int n)"

text \<open>
  An \<^verbatim>\<open>int\<close> has 32 bits. Signed overflow is undefined in C; the model is what the
  x86-64 code of the SDK does, where an addition keeps the low 32 bits of the exact sum,
  read in two's complement (\<open>wrap_int\<close>).
\<close>

definition INT_MIN :: int where
  "INT_MIN = - 2147483648"

definition INT_MAX :: int where
  "INT_MAX = 2147483647"

definition wrap_int :: "int \<Rightarrow> int" where
  "wrap_int v = (v + 2147483648) mod 4294967296 - 2147483648"

definition int_add :: "int \<Rightarrow> int \<Rightarrow> int" where
  "int_add a b = wrap_int (a + b)"

text \<open>Truncation toward zero: the fractional part is discarded.\<close>

definition trunc :: "rat \<Rightarrow> int" where
  "trunc x = (if 0 \<le> x then \<lfloor>x\<rfloor> else \<lceil>x\<rceil>)"

text \<open>
  The cast \<^verbatim>\<open>(int)x\<close> truncates toward zero. C leaves the cast undefined when the
  truncated value does not fit an \<^verbatim>\<open>int\<close>; the conversion instruction of x86-64
  (\<^verbatim>\<open>cvttss2si\<close>) then returns \<^verbatim>\<open>INT_MIN\<close>, and so does the model.
\<close>

definition float_to_int :: "float \<Rightarrow> int" where
  "float_to_int x =
    (let t = trunc x in if INT_MIN \<le> t \<and> t \<le> INT_MAX then t else INT_MIN)"

text \<open>
  \<^verbatim>\<open>fmodf(x, y)\<close> for \<open>y \<noteq> 0\<close>: the remainder of the truncated division, with the sign of
  \<open>x\<close>. It is exact in binary32 whatever the size of the quotient, so neither a rounding
  nor a range limit is applied.
\<close>

definition fmodf :: "float \<Rightarrow> float \<Rightarrow> float" where
  "fmodf x y = x - of_int (trunc (x / y)) * y"

text \<open>
  What \<^verbatim>\<open>sscanf\<close> can store in a \<^verbatim>\<open>float\<close>: a finite value, an infinity (\<open>True\<close> for the
  negative one) or a NaN. \<open>round_to_float\<close> is the rounding of an exact value with the
  overflow to an infinity; \<open>fp_mul\<close> is the product with a finite positive constant and
  \<open>fp_to_int\<close> the cast to \<^verbatim>\<open>int\<close>.
\<close>

datatype fpvalue = Finite float | Infinite bool | NaN

definition round_to_float :: "rat \<Rightarrow> fpvalue" where
  "round_to_float x = (if 2 ^ 128 \<le> \<bar>fl32 x\<bar> then Infinite (x < 0) else Finite (fl32 x))"

fun fp_mul :: "fpvalue \<Rightarrow> float \<Rightarrow> fpvalue" where
  "fp_mul (Finite x) c = round_to_float (x * c)"
| "fp_mul (Infinite neg) c = Infinite neg"
| "fp_mul NaN c = NaN"

fun fp_to_int :: "fpvalue \<Rightarrow> int" where
  "fp_to_int (Finite x) = float_to_int x"
| "fp_to_int (Infinite neg) = INT_MIN"
| "fp_to_int NaN = INT_MIN"

section \<open>Strings and the C library\<close>

text \<open>A buffer read as a C string ends before its first NUL byte.\<close>

definition cstr :: "string \<Rightarrow> string" where
  "cstr buf = takeWhile (\<lambda>c. c \<noteq> CHR 0x00) buf"

definition isspace :: "char \<Rightarrow> bool" where
  "isspace c = (c \<in> set [CHR 0x20, CHR 0x09, CHR 0x0A, CHR 0x0B, CHR 0x0C, CHR 0x0D])"

definition isdigit :: "char \<Rightarrow> bool" where
  "isdigit c = (48 \<le> (of_char c :: nat) \<and> (of_char c :: nat) \<le> 57)"

definition digit_value :: "char \<Rightarrow> nat" where
  "digit_value c = of_char c - 48"

definition dec_value :: "string \<Rightarrow> int" where
  "dec_value ds = foldl (\<lambda>a c. 10 * a + int (digit_value c)) 0 ds"

definition scan_sign :: "string \<Rightarrow> bool \<times> string" where
  "scan_sign s = (case s of [] \<Rightarrow> (False, [])
     | c # r \<Rightarrow> if c = CHR ''-'' then (True, r)
                else if c = CHR ''+'' then (False, r) else (False, s))"

text \<open>
  \<^verbatim>\<open>sscanf(response, "%dA", &x)\<close>: optional white space, an optional sign and at least one
  decimal digit; \<open>None\<close> when the call does not return 1. The literal \<^verbatim>\<open>A\<close> after the
  conversion does not change the return value. The C library converts the digits with
  \<^verbatim>\<open>strtol\<close>, which stops at the ends of the range of \<^verbatim>\<open>long\<close> (64 bits), and stores
  the low 32 bits of that \<^verbatim>\<open>long\<close> in the \<^verbatim>\<open>int\<close>.
\<close>

definition LONG_MIN :: int where
  "LONG_MIN = - 9223372036854775808"

definition LONG_MAX :: int where
  "LONG_MAX = 9223372036854775807"

definition sscanf_d :: "string \<Rightarrow> int option" where
  "sscanf_d s =
    (let (neg, r) = scan_sign (dropWhile isspace s);
         ds = takeWhile isdigit r;
         v = (if neg then - dec_value ds else dec_value ds)
     in if ds = [] then None
        else Some (wrap_int (max LONG_MIN (min LONG_MAX v))))"

definition tolower :: "char \<Rightarrow> char" where
  "tolower c = (if 65 \<le> (of_char c :: nat) \<and> (of_char c :: nat) \<le> 90
                then char_of (of_char c + 32 :: nat) else c)"

definition isxdigit :: "char \<Rightarrow> bool" where
  "isxdigit c = (isdigit c \<or>
     (97 \<le> (of_char (tolower c) :: nat) \<and> (of_char (tolower c) :: nat) \<le> 102))"

definition xdigit_value :: "char \<Rightarrow> nat" where
  "xdigit_value c = (if isdigit c then digit_value c else of_char (tolower c) - 87)"

definition hex_value :: "string \<Rightarrow> int" where
  "hex_value ds = foldl (\<lambda>a c. 16 * a + int (xdigit_value c)) 0 ds"

text \<open>
  The exponent part of a number: the exponent character in either case, an optional
  sign and decimal digits. A part that is absent or has no digit counts as 0.
\<close>

definition scan_exponent :: "char \<Rightarrow> string \<Rightarrow> int" where
  "scan_exponent exp_char r = (case r of [] \<Rightarrow> 0
     | c # r' \<Rightarrow>
        if tolower c = exp_char then
          (let (neg, r'') = scan_sign r'; ds = takeWhile isdigit r''
           in if ds = [] then 0
              else if neg then - dec_value ds else dec_value ds)
        else 0)"

text \<open>
  A decimal number: digits with an optional fraction, of which one digit at least must
  be present, and an optional exponent of ten.
\<close>

definition scan_decimal :: "string \<Rightarrow> rat option" where
  "scan_decimal r =
    (let ip = takeWhile isdigit r;
         r1 = dropWhile isdigit r;
         dot = (r1 \<noteq> [] \<and> hd r1 = CHR ''.'');
         fp = (if dot then takeWhile isdigit (tl r1) else []);
         r2 = (if dot then dropWhile isdigit (tl r1) else r1);
         m = of_int (dec_value (ip @ fp)) / 10 ^ length fp
               * 10 powi scan_exponent (CHR ''e'') r2
     in if ip = [] \<and> fp = [] then None else Some m)"

text \<open>
  A hexadecimal number, after its prefix \<^verbatim>\<open>0x\<close>: hexadecimal digits with an optional
  fraction and, if there is a digit, an optional exponent of two after \<^verbatim>\<open>p\<close>. With the
  point and no digit the C library reads the \<^verbatim>\<open>0\<close> of the prefix as the number; with
  neither the conversion fails.
\<close>

definition scan_hexadecimal :: "string \<Rightarrow> rat option" where
  "scan_hexadecimal r =
    (let ip = takeWhile isxdigit r;
         r1 = dropWhile isxdigit r;
         dot = (r1 \<noteq> [] \<and> hd r1 = CHR ''.'');
         fp = (if dot then takeWhile isxdigit (tl r1) else []);
         r2 = (if dot then dropWhile isxdigit (tl r1) else r1);
         m = of_int (hex_value (ip @ fp)) / 16 ^ length fp
               * 2 powi scan_exponent (CHR ''p'') r2
     in if ip = [] \<and> fp = [] then (if dot then Some 0 else None) else Some m)"

text \<open>
  \<^verbatim>\<open>sscanf(response, "%fA", &x)\<close>, as the GNU C library converts: optional white space
  and sign, then \<^verbatim>\<open>nan\<close>, \<^verbatim>\<open>inf\<close> or \<^verbatim>\<open>infinity\<close> in any case (an \<^verbatim>\<open>i\<close> after
  \<^verbatim>\<open>inf\<close> must begin \<^verbatim>\<open>inity\<close>), a hexadecimal number after \<^verbatim>\<open>0x\<close>, or a decimal
  number; the value is rounded to binary32. \<open>None\<close> when the call does not return 1.
  The literal \<^verbatim>\<open>A\<close> after the conversion does not change the return value.
\<close>

definition sscanf_f :: "string \<Rightarrow> fpvalue option" where
  "sscanf_f s =
    (let (neg, r) = scan_sign (dropWhile isspace s);
         l = map tolower r
     in if take 3 l = ''nan'' then Some NaN
        else if take 3 l = ''inf'' then
          (if take 1 (drop 3 l) = ''i'' \<and> take 8 l \<noteq> ''infinity'' then None
           else Some (Infinite neg))
        else map_option (\<lambda>m. round_to_float (if neg then - m else m))
               (if take 2 l = ''0x'' then scan_hexadecimal (drop 2 r)
                else scan_decimal r))"

text \<open>
  \<^verbatim>\<open>sscanf(response, "WandererRotator%7[^A]A", model)\<close>: the literal prefix, then one to
  seven characters other than \<^verbatim>\<open>A\<close>.
\<close>

definition sscanf_model :: "string \<Rightarrow> string option" where
  "sscanf_model s =
    (if take 15 s = ''WandererRotator'' then
       (let m = take 7 (takeWhile (\<lambda>c. c \<noteq> CHR ''A'') (drop 15 s))
        in if m = [] then None else Some m)
     else None)"

text \<open>\<^verbatim>\<open>std::string::find\<close>: the first position of the needle, \<open>None\<close> for \<^verbatim>\<open>npos\<close>.\<close>

fun string_find :: "string \<Rightarrow> string \<Rightarrow> nat option" where
  "string_find [] n = (if n = [] then Some 0 else None)"
| "string_find (c # cs) n =
     (if take (length n) (c # cs) = n then Some 0
      else map_option Suc (string_find cs n))"

text \<open>The \<^verbatim>\<open>%d\<close> conversion of \<^verbatim>\<open>snprintf\<close>, and the cut to the buffer size.\<close>

definition digit_char :: "nat \<Rightarrow> char" where
  "digit_char d = ''0123456789'' ! d"

fun show_nat :: "nat \<Rightarrow> string" where
  "show_nat n = (if n < 10 then [digit_char n]
                 else show_nat (n div 10) @ [digit_char (n mod 10)])"

declare show_nat.simps [simp del]

definition show_int :: "int \<Rightarrow> string" where
  "show_int v = (if v < 0 then CHR ''-'' # show_nat (nat (- v)) else show_nat (nat v))"

definition snprintf :: "nat \<Rightarrow> string \<Rightarrow> string" where
  "snprintf n s = take (n - 1) s"

section \<open>The serial line\<close>

text \<open>
  A \<open>Line\<close> is what the host sees of one serial device: the data of every \<^verbatim>\<open>write\<close>
  call so far, the bytes received and not yet read, and a script of the device's
  behaviour at the coming \<^verbatim>\<open>write\<close> calls (whether all bytes are transmitted, and the
  bytes the device answers with). When the script is used up, writes succeed and the
  device stays silent. A read that finds no more bytes is a read that times out.
  The \<open>World\<close> maps file descriptors to lines and counts the listener threads started.
\<close>

record SerialPort =
  fd :: int

record Line =
  sent :: "string list"
  script :: "(bool \<times> string) list"
  pending :: string

record World =
  lines :: "int \<Rightarrow> Line"
  listeners :: nat

definition SerialPort_IsOpen :: "SerialPort \<Rightarrow> bool" where
  "SerialPort_IsOpen p = (0 \<le> fd p)"

definition SerialPort_Close :: "SerialPort \<Rightarrow> SerialPort" where
  "SerialPort_Close p = (if 0 \<le> fd p then p\<lparr>fd := - 1\<rparr> else p)"

definition SerialPort_Write :: "SerialPort \<Rightarrow> string \<Rightarrow> World \<Rightarrow> bool \<times> World" where
  "SerialPort_Write p data w =
    (if fd p < 0 then (False, w)
     else
       (let L = lines w (fd p) in
        case script L of
          [] \<Rightarrow> (True, w\<lparr>lines := (lines w)(fd p := L\<lparr>sent := sent L @ [data]\<rparr>)\<rparr>)
        | (ok, reply) # rest \<Rightarrow>
            (ok, w\<lparr>lines := (lines w)(fd p :=
                   L\<lparr>sent := sent L @ [data], script := rest,
                     pending := pending L @ reply\<rparr>)\<rparr>)))"

fun read_until :: "nat \<Rightarrow> char \<Rightarrow> string \<Rightarrow> string" where
  "read_until n stop_char [] = []"
| "read_until n stop_char (c # cs) =
     (if n = 0 then []
      else if c = stop_char then [c]
      else c # read_until (n - 1) stop_char cs)"

text \<open>
  \<^verbatim>\<open>SerialPort::Read\<close> returns the number of bytes read, which its callers only compare
  with 0; the model returns the bytes: at most \<open>maxlen - 1\<close> of them, ending with the
  first stop character.
\<close>

definition SerialPort_Read ::
  "SerialPort \<Rightarrow> nat \<Rightarrow> char \<Rightarrow> nat \<Rightarrow> World \<Rightarrow> string \<times> World" where
  "SerialPort_Read p maxlen stop_char timeoutMs w =
    (if fd p < 0 then ([], w)
     else
       (let L = lines w (fd p);
            buf = read_until (maxlen - 1) stop_char (pending L)
        in (buf, w\<lparr>lines := (lines w)(fd p :=
                   L\<lparr>pending := drop (length buf) (pending L)\<rparr>)\<rparr>)))"

text \<open>\<^verbatim>\<open>tcflush\<close> on the input queue discards the bytes received and not yet read.\<close>

definition tcflush :: "int \<Rightarrow> World \<Rightarrow> World" where
  "tcflush f w =
    (if f < 0 then w else w\<lparr>lines := (lines w)(f := (lines w f)\<lparr>pending := []\<rparr>)\<rparr>)"

section \<open>The device record\<close>

text \<open>
  \<^verbatim>\<open>struct Device\<close> of \<^verbatim>\<open>WandererRotatorDevice.h\<close>. The shared pointer \<^verbatim>\<open>port\<close> may
  be null (\<open>None\<close>). The fields of the nested structs carry the name of the member they
  belong to as a prefix. The listener thread also reads and writes
  \<^verbatim>\<open>device->overshooting\<close> and \<^verbatim>\<open>device->overshootAngle\<close>; the header under review
  declares neither, they are added here with the types the listener uses them at.
  \<open>status_stepSize\<close> is \<open>None\<close> when the source has divided by zero and holds an
  infinity.
\<close>

record RotatorConfig =
  rotator_reverseDirection :: int
  rotator_stepRate :: int

record RotatorStatus =
  status_position :: float
  status_moving :: int
  status_stepsPerRevolution :: int
  status_stepSize :: "float option"

record Device =
  port :: "SerialPort option"
  portName :: string
  modelType :: string
  firmwareVersion :: int
  mechanicalAngle :: int
  backlash :: int
  reverseDirection :: int
  stepsPerDegree :: int
  targetAngle :: float
  lastRotated :: fpvalue
  rotator :: RotatorConfig
  status :: RotatorStatus
  listenerRunning :: bool
  overshooting :: int
  overshootAngle :: float

section \<open>The protocol (\<^verbatim>\<open>WandererRotatorProtocol.cpp\<close>)\<close>

text \<open>The delays (\<^verbatim>\<open>usleep\<close>) and the log output have no effect on the state modelled.\<close>

definition SendCommand :: "Device \<Rightarrow> string \<Rightarrow> World \<Rightarrow> bool \<times> World" where
  "SendCommand device command w =
    (case port device of
       None \<Rightarrow> (False, w)
     | Some p \<Rightarrow>
         if \<not> SerialPort_IsOpen p then (False, w)
         else SerialPort_Write p command w)"

text \<open>
  The end of \<^verbatim>\<open>QueryStatus\<close>, after the five frames are parsed: the steps per degree
  of the model, and the status fields derived from them. The SDK stores no other value
  in \<^verbatim>\<open>stepsPerDegree\<close> than 0, 1142, 1199 and 1155, so the product with 360 is the
  exact one.
\<close>

definition QueryStatus_derive :: "Device \<Rightarrow> Device" where
  "QueryStatus_derive device =
    (let device =
           (if string_find (modelType device) ''Mini'' \<noteq> None
            then device\<lparr>stepsPerDegree := 1142\<rparr>
            else if string_find (modelType device) ''Lite'' \<noteq> None
            then (if string_find (modelType device) ''V2'' \<noteq> None
                  then device\<lparr>stepsPerDegree := 1199\<rparr>
                  else device\<lparr>stepsPerDegree := 1155\<rparr>)
            else device)
     in device\<lparr>status := (status device)\<lparr>
          status_stepsPerRevolution := stepsPerDegree device * 360,
          status_stepSize :=
            (if stepsPerDegree device = 0 then None
             else Some (fdiv 1 (int_to_float (stepsPerDegree device)))),
          status_position := fdiv (int_to_float (mechanicalAngle device)) 1000\<rparr>\<rparr>)"

text \<open>
  \<^verbatim>\<open>QueryStatus\<close> returns at the first frame that is missing or does not parse, and
  keeps the fields written before.
\<close>

definition QueryStatus :: "Device \<Rightarrow> World \<Rightarrow> bool \<times> Device \<times> World" where
  "QueryStatus device w =
    (case port device of
       None \<Rightarrow> (False, device, w)
     | Some p \<Rightarrow>
       if \<not> SerialPort_IsOpen p then (False, device, w)
       else
        (let w = tcflush (fd p) w;
             (ok, w) = SerialPort_Write p ''1500001\<newline>'' w
         in if \<not> ok then (False, device, w)
         else
          (let (response, w) = SerialPort_Read p 32 (CHR ''A'') 3000 w
           in if response = [] then (False, device, w)
           else case sscanf_model (cstr response) of
             None \<Rightarrow> (False, device, w)
           | Some model \<Rightarrow>
            (let device = device\<lparr>modelType := model\<rparr>;
                 (response, w) = SerialPort_Read p 32 (CHR ''A'') 3000 w
             in if response = [] then (False, device, w)
             else case sscanf_d (cstr response) of
               None \<Rightarrow> (False, device, w)
             | Some firmware \<Rightarrow>
              (let device = device\<lparr>firmwareVersion := firmware\<rparr>;
                   (response, w) = SerialPort_Read p 32 (CHR ''A'') 3000 w
               in if response = [] then (False, device, w)
               else case sscanf_d (cstr response) of
                 None \<Rightarrow> (False, device, w)
               | Some angle \<Rightarrow>
                (let device = device\<lparr>mechanicalAngle := angle\<rparr>;
                     (response, w) = SerialPort_Read p 32 (CHR ''A'') 3000 w
                 in if response = [] then (False, device, w)
                 else case sscanf_f (cstr response) of
                   None \<Rightarrow> (False, device, w)
                 | Some bl \<Rightarrow>
                  (let device = device\<lparr>backlash := fp_to_int (fp_mul bl 10)\<rparr>;
                       (response, w) = SerialPort_Read p 32 (CHR ''A'') 3000 w
                   in if response = [] then (False, device, w)
                   else case sscanf_d (cstr response) of
                     None \<Rightarrow> (False, device, w)
                   | Some reverse \<Rightarrow>
                       (True,
                        QueryStatus_derive (device\<lparr>reverseDirection := reverse\<rparr>),
                        w))))))))"

definition BacklashToCommand :: "float \<Rightarrow> int" where
  "BacklashToCommand bl = int_add (float_to_int (fmul bl 10)) 1600000"

definition ReverseDirectionToCommand :: "int \<Rightarrow> string" where
  "ReverseDirectionToCommand reverse =
    (if reverse \<noteq> 0 then ''1700001\<newline>'' else ''1700000\<newline>'')"

text \<open>
  \<^verbatim>\<open>StartMoveListener\<close> sets the flag and detaches a new thread; the thread's body is
  \<open>MoveListenerThreadFunc\<close>, which runs later and is not part of the caller's step.
\<close>

definition StartMoveListener :: "Device \<Rightarrow> World \<Rightarrow> Device \<times> World" where
  "StartMoveListener device w =
    (device\<lparr>listenerRunning := True\<rparr>, w\<lparr>listeners := listeners w + 1\<rparr>)"

definition StopMoveListener :: "Device \<Rightarrow> Device" where
  "StopMoveListener device = device\<lparr>listenerRunning := False\<rparr>"


section \<open>The public API (\<^verbatim>\<open>WandererRotatorSDK.cpp\<close>)\<close>

datatype WR_ERROR_TYPE =
    WR_SUCCESS
  | WR_ERROR_INVALID_ID
  | WR_ERROR_INVALID_PARAMETER
  | WR_ERROR_INVALID_STATE
  | WR_ERROR_COMMUNICATION
  | WR_ERROR_NULL_POINTER

record WR_VERSION =
  firmware :: "32 word"
  model :: string

record WR_ROTATOR_CONFIG =
  cfg_mask :: "32 word"
  cfg_reverseDirection :: int
  cfg_backlash :: float
  cfg_overshoot :: int
  cfg_overshootAngle :: float
  cfg_overshotDirection :: int

record WR_ROTATOR_STATUS =
  position :: float
  moving :: int
  stepsPerRevolution :: int
  stepSize :: "float option"

definition MASK_ROTATOR_REVERSE_DIRECTION :: "32 word" where
  "MASK_ROTATOR_REVERSE_DIRECTION = 0x01"

definition MASK_ROTATOR_BACKLASH :: "32 word" where
  "MASK_ROTATOR_BACKLASH = 0x02"

text \<open>
  The registry \<^verbatim>\<open>g_devices\<close> and the world outside the process. Every entry point holds
  the global mutex for its whole body, so each is one step on this state. An output
  pointer is an option: \<open>None\<close> is the null pointer, \<open>Some\<close> the struct the caller passes,
  and the struct as the call leaves it is returned.
\<close>

record State =
  g_devices :: "int \<rightharpoonup> Device"
  world :: World

definition WRRotatorClose :: "int \<Rightarrow> State \<Rightarrow> WR_ERROR_TYPE \<times> State" where
  "WRRotatorClose ident s =
    (case g_devices s ident of
       None \<Rightarrow> (WR_ERROR_INVALID_ID, s)
     | Some device \<Rightarrow>
        (let device = StopMoveListener device;
             device = (case port device of
                         None \<Rightarrow> device
                       | Some p \<Rightarrow> device\<lparr>port := Some (SerialPort_Close p)\<rparr>)
         in (WR_SUCCESS, s\<lparr>g_devices := (g_devices s)(ident \<mapsto> device)\<rparr>)))"

definition WRRotatorGetConfig ::
  "int \<Rightarrow> WR_ROTATOR_CONFIG option \<Rightarrow> State \<Rightarrow>
   WR_ERROR_TYPE \<times> WR_ROTATOR_CONFIG option \<times> State" where
  "WRRotatorGetConfig ident config s =
    (case config of
       None \<Rightarrow> (WR_ERROR_NULL_POINTER, None, s)
     | Some c \<Rightarrow>
        (case g_devices s ident of
           None \<Rightarrow> (WR_ERROR_INVALID_ID, config, s)
         | Some device \<Rightarrow>
            (WR_SUCCESS,
             Some (c\<lparr>cfg_reverseDirection := rotator_reverseDirection (rotator device),
                     cfg_backlash := fdiv (int_to_float (backlash device)) 10\<rparr>),
             s)))"

definition WRRotatorSetConfig ::
  "int \<Rightarrow> WR_ROTATOR_CONFIG option \<Rightarrow> State \<Rightarrow> WR_ERROR_TYPE \<times> State" where
  "WRRotatorSetConfig ident config s =
    (case config of
       None \<Rightarrow> (WR_ERROR_NULL_POINTER, s)
     | Some c \<Rightarrow>
        (case g_devices s ident of
           None \<Rightarrow> (WR_ERROR_INVALID_ID, s)
         | Some device \<Rightarrow>
            (let reverse_step =
               (if cfg_mask c AND MASK_ROTATOR_REVERSE_DIRECTION \<noteq> 0 then
                  (let cmd = ReverseDirectionToCommand (cfg_reverseDirection c);
                       (ok, w) = SendCommand device cmd (world s)
                   in if \<not> ok then (False, device, w)
                      else (True,
                            device\<lparr>rotator := (rotator device)\<lparr>
                                      rotator_reverseDirection := cfg_reverseDirection c\<rparr>,
                                    reverseDirection := cfg_reverseDirection c\<rparr>,
                            w))
                else (True, device, world s))
             in case reverse_step of (ok, device, w) \<Rightarrow>
               if \<not> ok then (WR_ERROR_COMMUNICATION, s\<lparr>world := w\<rparr>)
               else if cfg_mask c AND MASK_ROTATOR_BACKLASH \<noteq> 0 then
                 (if cfg_backlash c < 0 then
                    (WR_ERROR_INVALID_PARAMETER,
                     s\<lparr>g_devices := (g_devices s)(ident \<mapsto> device), world := w\<rparr>)
                  else
                    (let command_value = BacklashToCommand (cfg_backlash c);
                         cmd = snprintf 32 (show_int command_value @ ''\<newline>'');
                         (ok, w) = SendCommand device cmd w
                     in if \<not> ok then
                          (WR_ERROR_COMMUNICATION,
                           s\<lparr>g_devices := (g_devices s)(ident \<mapsto> device), world := w\<rparr>)
                        else
                          (WR_SUCCESS,
                           s\<lparr>g_devices := (g_devices s)(ident \<mapsto>
                                device\<lparr>backlash := float_to_int (fmul (cfg_backlash c) 10)\<rparr>),
                             world := w\<rparr>)))
               else
                 (WR_SUCCESS,
                  s\<lparr>g_devices := (g_devices s)(ident \<mapsto> device), world := w\<rparr>))))"

definition WRRotatorGetStatus ::
  "int \<Rightarrow> WR_ROTATOR_STATUS option \<Rightarrow> State \<Rightarrow>
   WR_ERROR_TYPE \<times> WR_ROTATOR_STATUS option \<times> State" where
  "WRRotatorGetStatus ident st s =
    (case st of
       None \<Rightarrow> (WR_ERROR_NULL_POINTER, None, s)
     | Some t \<Rightarrow>
        (case g_devices s ident of
           None \<Rightarrow> (WR_ERROR_INVALID_ID, st, s)
         | Some device \<Rightarrow>
            (WR_SUCCESS,
             Some (t\<lparr>position := status_position (status device),
                     moving := status_moving (status device),
                     stepsPerRevolution := status_stepsPerRevolution (status device),
                     stepSize := status_stepSize (status device)\<rparr>),
             s)))"

text \<open>
  \<^verbatim>\<open>version->firmware\<close> is an \<^verbatim>\<open>unsigned int\<close>: the assignment converts the \<^verbatim>\<open>int\<close>
  modulo \<open>2 ^ 32\<close>. \<^verbatim>\<open>strncpy\<close> copies at most 7 characters of the C string into
  \<^verbatim>\<open>model[8]\<close>.
\<close>

definition WRRotatorGetVersion ::
  "int \<Rightarrow> WR_VERSION option \<Rightarrow> State \<Rightarrow> WR_ERROR_TYPE \<times> WR_VERSION option \<times> State" where
  "WRRotatorGetVersion ident version s =
    (case version of
       None \<Rightarrow> (WR_ERROR_NULL_POINTER, None, s)
     | Some v \<Rightarrow>
        (case g_devices s ident of
           None \<Rightarrow> (WR_ERROR_INVALID_ID, version, s)
         | Some device \<Rightarrow>
            (WR_SUCCESS,
             Some (v\<lparr>firmware := word_of_int (firmwareVersion device),
                     model := take 7 (cstr (modelType device))\<rparr>),
             s)))"

definition WRRotatorSyncPosition :: "int \<Rightarrow> float \<Rightarrow> State \<Rightarrow> WR_ERROR_TYPE \<times> State" where
  "WRRotatorSyncPosition ident angle s =
    (case g_devices s ident of
       None \<Rightarrow> (WR_ERROR_INVALID_ID, s)
     | Some device \<Rightarrow>
        (case port device of
           None \<Rightarrow> (WR_ERROR_COMMUNICATION, s)
         | Some p \<Rightarrow>
            if \<not> SerialPort_IsOpen p then (WR_ERROR_COMMUNICATION, s)
            else if angle \<noteq> 0 then (WR_ERROR_INVALID_PARAMETER, s)
            else if angle < 0 \<or> 360 \<le> angle then (WR_ERROR_INVALID_PARAMETER, s)
            else
              (let (ok, w) = SendCommand device ''1500002'' (world s)
               in if \<not> ok then (WR_ERROR_COMMUNICATION, s\<lparr>world := w\<rparr>)
                  else
                    (WR_SUCCESS,
                     s\<lparr>g_devices := (g_devices s)(ident \<mapsto>
                          device\<lparr>status := (status device)\<lparr>status_position := angle\<rparr>\<rparr>),
                       world := w\<rparr>))))"

definition WRRotatorMove :: "int \<Rightarrow> float \<Rightarrow> State \<Rightarrow> WR_ERROR_TYPE \<times> State" where
  "WRRotatorMove ident angle s =
    (case g_devices s ident of
       None \<Rightarrow> (WR_ERROR_INVALID_ID, s)
     | Some device \<Rightarrow>
        (case port device of
           None \<Rightarrow> (WR_ERROR_COMMUNICATION, s)
         | Some p \<Rightarrow>
            if \<not> SerialPort_IsOpen p then (WR_ERROR_COMMUNICATION, s)
            else
              (let command_value = int_add 1000000
                     (float_to_int (fmul angle (int_to_float (stepsPerDegree device))));
                   cmd = snprintf 8 (show_int command_value);
                   device = device\<lparr>targetAngle := angle\<rparr>;
                   w = tcflush (fd p) (world s);
                   (ok, w) = SendCommand device cmd w
               in if \<not> ok then
                    (WR_ERROR_COMMUNICATION,
                     s\<lparr>g_devices := (g_devices s)(ident \<mapsto> device), world := w\<rparr>)
                  else
                    (let device = device\<lparr>status := (status device)\<lparr>status_moving := 1\<rparr>\<rparr>;
                         (device, w) = StartMoveListener device w
                     in (WR_SUCCESS,
                         s\<lparr>g_devices := (g_devices s)(ident \<mapsto> device), world := w\<rparr>)))))"

text \<open>
  The shortest-path normalisation of \<^verbatim>\<open>WRRotatorMoveTo\<close>:
  \<^verbatim>\<open>delta = angle - currentAngle; delta = fmodf(delta + 180.0f, 360.0f);\<close>
  \<^verbatim>\<open>delta = (delta < 0.0f) ? delta + 180.0f : delta - 180.0f;\<close>
\<close>

definition WRRotatorMoveTo_delta :: "float \<Rightarrow> float \<Rightarrow> float" where
  "WRRotatorMoveTo_delta angle currentAngle =
    (let delta = fsub angle currentAngle;
         delta = fmodf (fadd delta 180) 360
     in if delta < 0 then fadd delta 180 else fsub delta 180)"

definition WRRotatorMoveTo :: "int \<Rightarrow> float \<Rightarrow> State \<Rightarrow> WR_ERROR_TYPE \<times> State" where
  "WRRotatorMoveTo ident angle s =
    (case g_devices s ident of
       None \<Rightarrow> (WR_ERROR_INVALID_ID, s)
     | Some device \<Rightarrow>
        (case port device of
           None \<Rightarrow> (WR_ERROR_COMMUNICATION, s)
         | Some p \<Rightarrow>
            if \<not> SerialPort_IsOpen p then (WR_ERROR_COMMUNICATION, s)
            else if angle < 0 \<or> 360 \<le> angle then (WR_ERROR_INVALID_PARAMETER, s)
            else
              (let (ok, device, w) = QueryStatus device (world s);
                   s = s\<lparr>g_devices := (g_devices s)(ident \<mapsto> device), world := w\<rparr>
               in if \<not> ok then (WR_ERROR_COMMUNICATION, s)
                  else
                    (let currentAngle = fdiv (int_to_float (mechanicalAngle device)) 1000;
                         delta = WRRotatorMoveTo_delta angle currentAngle
                     in if delta = 0 then (WR_SUCCESS, s)
                        else WRRotatorMove ident delta s))))"

definition WRRotatorFindHome :: "int \<Rightarrow> State \<Rightarrow> WR_ERROR_TYPE \<times> State" where
  "WRRotatorFindHome ident s = WRRotatorMoveTo ident 0 s"

definition WRRotatorStopMove :: "int \<Rightarrow> State \<Rightarrow> WR_ERROR_TYPE \<times> State" where
  "WRRotatorStopMove ident s =
    (case g_devices s ident of
       None \<Rightarrow> (WR_ERROR_INVALID_ID, s)
     | Some device \<Rightarrow>
        (case port device of
           None \<Rightarrow> (WR_ERROR_COMMUNICATION, s)
         | Some p \<Rightarrow>
            if \<not> SerialPort_IsOpen p then (WR_ERROR_COMMUNICATION, s)
            else
              (let (ok, w) = SendCommand device ''stop'' (world s)
               in if \<not> ok then (WR_ERROR_COMMUNICATION, s\<lparr>world := w\<rparr>)
                  else
                    (WR_SUCCESS,
                     s\<lparr>g_devices := (g_devices s)(ident \<mapsto>
                          device\<lparr>status := (status device)\<lparr>status_moving := 0\<rparr>\<rparr>),
                       world := w\<rparr>))))"

section \<open>Example states\<close>

text \<open>
  A registered device on file descriptor 3 in the state \<^verbatim>\<open>WRRotatorScan\<close> leaves it in
  (all fields at their initial values) with its port open, a world in which every line
  follows the script \<open>sc\<close>, and the state that registers a device under handle 0.
\<close>

definition demo_device :: Device where
  "demo_device =
    \<lparr>port = Some \<lparr>fd = 3\<rparr>, portName = ''/dev/ttyUSB0'', modelType = [],
     firmwareVersion = 0, mechanicalAngle = 0, backlash = 0, reverseDirection = 0,
     stepsPerDegree = 0, targetAngle = 0, lastRotated = Finite 0,
     rotator = \<lparr>rotator_reverseDirection = 0, rotator_stepRate = 50\<rparr>,
     status = \<lparr>status_position = 0, status_moving = 0, status_stepsPerRevolution = 0,
                status_stepSize = Some 0\<rparr>,
     listenerRunning = False, overshooting = 0, overshootAngle = 0\<rparr>"

definition demo_world :: "(bool \<times> string) list \<Rightarrow> World" where
  "demo_world sc =
    \<lparr>lines = (\<lambda>f. \<lparr>sent = [], script = sc, pending = []\<rparr>), listeners = 0\<rparr>"

definition demo_state :: "Device \<Rightarrow> (bool \<times> string) list \<Rightarrow> State" where
  "demo_state d sc = \<lparr>g_devices = [0 \<mapsto> d], world = demo_world sc\<rparr>"

text \<open>
  Caller-side structs, a device that reports motion, and a device as a successful
  \<^verbatim>\<open>WRRotatorOpen\<close> of a Lite V2 rotator leaves it.
\<close>

definition demo_status :: WR_ROTATOR_STATUS where
  "demo_status = \<lparr>position = 0, moving = 0, stepsPerRevolution = 0, stepSize = None\<rparr>"

definition demo_config :: "32 word \<Rightarrow> int \<Rightarrow> float \<Rightarrow> WR_ROTATOR_CONFIG" where
  "demo_config m r b =
    \<lparr>cfg_mask = m, cfg_reverseDirection = r, cfg_backlash = b, cfg_overshoot = 0,
     cfg_overshootAngle = 0, cfg_overshotDirection = 0\<rparr>"

definition demo_version :: WR_VERSION where
  "demo_version = \<lparr>firmware = 0, model = []\<rparr>"

definition demo_moving_device :: Device where
  "demo_moving_device = demo_device\<lparr>status := (status demo_device)\<lparr>status_moving := 1\<rparr>\<rparr>"

definition demo_opened_device :: Device where
  "demo_opened_device =
    demo_device\<lparr>modelType := ''LiteV2'', firmwareVersion := 20240101,
      mechanicalAngle := 90000, backlash := 5, stepsPerDegree := 1199,
      status := \<lparr>status_position = 90, status_moving = 0,
                 status_stepsPerRevolution = 431640,
                 status_stepSize = Some (7164249 / 8589934592)\<rparr>\<rparr>"

text \<open>
  A frame of the protocol as \<^verbatim>\<open>SerialPort::Read\<close> returns it whole: at most 30 bytes
  other than \<^verbatim>\<open>A\<close>, then \<^verbatim>\<open>A\<close>. \<open>demo_reply\<close> is the script of a rotator that answers
  one status request with its five frames.
\<close>

definition is_frame :: "string \<Rightarrow> bool" where
  "is_frame fr = (\<exists>body. fr = body @ ''A'' \<and> CHR ''A'' \<notin> set body \<and> length body \<le> 30)"

definition demo_reply :: "string \<Rightarrow> (bool \<times> string) list" where
  "demo_reply name = [(True, ''WandererRotator'' @ name @ ''A20240101A90000A0.5A0A'')]"



section \<open>Properties of the rounding\<close>

lemma bitlen_powi_bounds:
  assumes "0 < p"
  shows "(2::rat) powi (bitlen p - 1) \<le> of_int p" and "of_int p < (2::rat) powi (bitlen p)"
proof -
  from assms have b1: "1 \<le> bitlen p"
    by (simp add: bitlen_alt_def)
  from bitlen_bounds [OF assms]
  have lo: "2 ^ nat (bitlen p - 1) \<le> p" and hi: "p < 2 ^ nat (bitlen p)"
    by simp_all
  have "(of_int (2 ^ nat (bitlen p - 1)) :: rat) \<le> of_int p"
    using lo by (simp only: of_int_le_iff)
  then show "(2::rat) powi (bitlen p - 1) \<le> of_int p"
    using b1 by (simp add: power_int_nonneg_exp)
  have "(of_int p :: rat) < of_int (2 ^ nat (bitlen p))"
    using hi by (simp only: of_int_less_iff)
  then show "of_int p < (2::rat) powi (bitlen p)"
    using b1 by (simp add: power_int_nonneg_exp)
qed

lemma ilog2_bounds:
  assumes "x \<noteq> 0"
  shows "(2::rat) powi (ilog2 x) \<le> \<bar>x\<bar>" and "\<bar>x\<bar> < (2::rat) powi (ilog2 x + 1)"
proof -
  obtain p q where pq: "quotient_of \<bar>x\<bar> = (p, q)"
    by (cases "quotient_of \<bar>x\<bar>")
  have q: "0 < q" using pq by (rule quotient_of_denom_pos)
  have xe: "\<bar>x\<bar> = of_int p / of_int q" using pq by (rule quotient_of_div)
  have xpos: "0 < \<bar>x\<bar>" using assms by simp
  have p: "0 < p"
    using xpos q unfolding xe by (simp add: zero_less_divide_iff)
  define k where "k = bitlen p - bitlen q"
  have il: "ilog2 x = (if (2::rat) powi k \<le> \<bar>x\<bar> then k else k - 1)"
    by (simp add: ilog2_def pq k_def Let_def)
  have qr: "(0::rat) < of_int q" using q by simp
  have up: "\<bar>x\<bar> < 2 powi (k + 1)"
  proof -
    have "of_int p < (2::rat) powi (bitlen p)" using p by (rule bitlen_powi_bounds)
    also have "\<dots> = 2 powi (k + 1) * 2 powi (bitlen q - 1)"
      by (simp add: k_def power_int_add [symmetric])
    also have "\<dots> \<le> 2 powi (k + 1) * of_int q"
      using bitlen_powi_bounds(1) [OF q] by (intro mult_left_mono) simp_all
    finally show ?thesis
      unfolding xe using qr by (simp add: pos_divide_less_eq)
  qed
  have lo: "2 powi (k - 1) \<le> \<bar>x\<bar>"
  proof -
    have "2 powi (k - 1) * of_int q \<le> 2 powi (k - 1) * (2::rat) powi (bitlen q)"
      using bitlen_powi_bounds(2) [OF q] by (intro mult_left_mono) simp_all
    also have "\<dots> = 2 powi (bitlen p - 1)"
      by (simp add: k_def power_int_add [symmetric])
    also have "\<dots> \<le> of_int p" using p by (rule bitlen_powi_bounds)
    finally show ?thesis
      unfolding xe using qr by (simp add: pos_le_divide_eq)
  qed
  show "(2::rat) powi (ilog2 x) \<le> \<bar>x\<bar>"
    using lo by (simp add: il)
  show "\<bar>x\<bar> < (2::rat) powi (ilog2 x + 1)"
  proof (cases "(2::rat) powi k \<le> \<bar>x\<bar>")
    case True
    then show ?thesis using up by (simp add: il)
  next
    case False
    then show ?thesis by (simp add: il)
  qed
qed

lemma powi2_mono: "a \<le> b \<Longrightarrow> (2::rat) powi a \<le> 2 powi b"
  by (rule power_int_increasing) simp_all

lemma powi2_less_cancel: "(2::rat) powi a < 2 powi b \<Longrightarrow> a < b"
  using powi2_mono [of b a] by (cases "a < b") simp_all

lemma ilog2_unique:
  assumes "(2::rat) powi e \<le> \<bar>x\<bar>" and "\<bar>x\<bar> < 2 powi (e + 1)"
  shows "ilog2 x = e"
proof -
  have x0: "x \<noteq> 0"
    using assms(1) power_int_0_right by (metis abs_zero not_le zero_less_numeral zero_less_power_int)
  note b = ilog2_bounds [OF x0]
  have "(2::rat) powi (ilog2 x) < 2 powi (e + 1)"
    using b(1) assms(2) by simp
  then have 1: "ilog2 x < e + 1" by (rule powi2_less_cancel)
  have "(2::rat) powi e < 2 powi (ilog2 x + 1)"
    using b(2) assms(1) by simp
  then have 2: "e < ilog2 x + 1" by (rule powi2_less_cancel)
  from 1 2 show ?thesis by simp
qed


lemma rne_of_int [simp]: "rne (of_int n) = n"
  by (simp add: rne_def)

lemma rne_bounds: "\<lfloor>x\<rfloor> \<le> rne x" "rne x \<le> \<lfloor>x\<rfloor> + 1"
  by (simp_all add: rne_def Let_def)

lemma rne_mono: "x \<le> y \<Longrightarrow> rne x \<le> rne y"
proof -
  assume xy: "x \<le> y"
  have fl: "\<lfloor>x\<rfloor> \<le> \<lfloor>y\<rfloor>" using xy by (rule floor_mono)
  show ?thesis
  proof (cases "\<lfloor>x\<rfloor> = \<lfloor>y\<rfloor>")
    case True
    then show ?thesis using xy by (auto simp: rne_def Let_def)
  next
    case False
    with fl have "\<lfloor>x\<rfloor> + 1 \<le> \<lfloor>y\<rfloor>" by simp
    then show ?thesis using rne_bounds(2) [of x] rne_bounds(1) [of y] by linarith
  qed
qed

lemma rne_minus: "rne (- x) = - rne x"
proof (cases "x \<in> \<int>")
  case True
  then obtain n where "x = of_int n" by (auto elim: Ints_cases)
  then show ?thesis by (simp flip: of_int_minus)
next
  case False
  then have ne: "x \<noteq> of_int \<lfloor>x\<rfloor>"
    by (metis Ints_of_int)
  then have fm: "\<lfloor>- x\<rfloor> = - \<lfloor>x\<rfloor> - 1"
    by (simp add: floor_minus ceiling_altdef)
  show ?thesis
    unfolding rne_def Let_def fm by (auto simp: algebra_simps)
qed

lemma rne_nonneg: "0 \<le> x \<Longrightarrow> 0 \<le> rne x"
  using rne_mono [of 0 x] rne_of_int [of 0] by simp

lemma ulp32_pos: "0 < ulp32 x"
  by (simp add: ulp32_def)

lemma ilog2_minus [simp]: "ilog2 (- x) = ilog2 x"
  by (simp add: ilog2_def)

lemma ulp32_minus [simp]: "ulp32 (- x) = ulp32 x"
  by (simp add: ulp32_def)

lemma fl32_minus: "fl32 (- x) = - fl32 x"
  by (simp add: fl32_def rne_minus)

lemma fl32_nonneg: "0 \<le> x \<Longrightarrow> 0 \<le> fl32 x"
  using ulp32_pos [of x] by (simp add: fl32_def rne_nonneg)

lemma fl32_nonpos: "x \<le> 0 \<Longrightarrow> fl32 x \<le> 0"
  using fl32_nonneg [of "- x"] by (simp add: fl32_minus)

lemma fl32_0 [simp]: "fl32 0 = 0"
  by (simp add: fl32_def)


lemma ilog2_mono:
  assumes "x \<noteq> 0" and "\<bar>x\<bar> \<le> \<bar>y\<bar>"
  shows "ilog2 x \<le> ilog2 y"
proof -
  from assms have y0: "y \<noteq> 0" by auto
  have "(2::rat) powi (ilog2 x) \<le> \<bar>x\<bar>" using assms(1) by (rule ilog2_bounds)
  also note assms(2)
  also have "\<bar>y\<bar> < (2::rat) powi (ilog2 y + 1)" using y0 by (rule ilog2_bounds)
  finally have "ilog2 x < ilog2 y + 1" by (rule powi2_less_cancel)
  then show ?thesis by simp
qed

lemma fl32_upper:
  assumes "0 < x"
  shows "fl32 x \<le> 2 powi (max (ilog2 x - 23) (- 149) + 24)"
proof -
  define E where "E = max (ilog2 x - 23) (- 149)"
  have u: "ulp32 x = 2 powi E" by (simp add: ulp32_def E_def)
  have x0: "x \<noteq> 0" using assms by simp
  have "x < (2::rat) powi (ilog2 x + 1)"
    using ilog2_bounds(2) [OF x0] assms by simp
  also have "\<dots> \<le> 2 powi (E + 24)"
    by (rule powi2_mono) (simp add: E_def)
  also have "\<dots> = 2 ^ 24 * 2 powi E"
    by (simp add: power_int_add)
  finally have "x / 2 powi E \<le> 2 ^ 24"
    by (simp add: pos_divide_le_eq)
  then have "rne (x / 2 powi E) \<le> rne (2 ^ 24)" by (rule rne_mono)
  also have "rne (2 ^ 24) = 2 ^ 24"
    using rne_of_int [of "2 ^ 24"] by simp
  finally have "(of_int (rne (x / 2 powi E)) :: rat) \<le> of_int (2 ^ 24)"
    by (simp only: of_int_le_iff)
  then have "of_int (rne (x / 2 powi E)) * 2 powi E \<le> 2 ^ 24 * (2::rat) powi E"
    by (intro mult_right_mono) simp_all
  then show ?thesis
    using x0 by (simp add: fl32_def u power_int_add flip: E_def)
qed

lemma fl32_lower:
  assumes "0 < y" and "- 149 \<le> ilog2 y - 23"
  shows "2 powi (ilog2 y) \<le> fl32 y"
proof -
  define E where "E = ilog2 y - 23"
  have "max (ilog2 y - 23) (- 149) = E"
    unfolding E_def using assms(2) by (rule max_absorb1)
  then have u: "ulp32 y = 2 powi E" by (simp only: ulp32_def)
  have y0: "y \<noteq> 0" using assms by simp
  have "2 ^ 23 * (2::rat) powi E = 2 powi (ilog2 y)"
    by (simp add: E_def power_int_diff)
  also have "\<dots> \<le> y"
    using ilog2_bounds(1) [OF y0] assms by simp
  finally have "2 ^ 23 \<le> y / 2 powi E"
    by (simp add: pos_le_divide_eq)
  then have "rne (2 ^ 23) \<le> rne (y / 2 powi E)" by (rule rne_mono)
  moreover have "rne (2 ^ 23) = 2 ^ 23"
    using rne_of_int [of "2 ^ 23"] by simp
  ultimately have "(of_int (2 ^ 23) :: rat) \<le> of_int (rne (y / 2 powi E))"
    by (simp only: of_int_le_iff)
  then have le: "of_int (2 ^ 23) * (2::rat) powi E \<le> of_int (rne (y / 2 powi E)) * 2 powi E"
    by (intro mult_right_mono) simp_all
  have "(2::rat) powi (ilog2 y) = of_int (2 ^ 23) * 2 powi E"
    by (simp add: E_def power_int_diff)
  also note le
  also have "of_int (rne (y / 2 powi E)) * 2 powi E = fl32 y"
    using y0 by (simp only: fl32_def u if_False)
  finally show ?thesis .
qed

lemma fl32_mono_pos:
  assumes "0 < x" and "x \<le> y"
  shows "fl32 x \<le> fl32 y"
proof -
  have x0: "x \<noteq> 0" and y0: "y \<noteq> 0" and ypos: "0 < y" using assms by simp_all
  define Ex where "Ex = max (ilog2 x - 23) (- 149)"
  define Ey where "Ey = max (ilog2 y - 23) (- 149)"
  have il: "ilog2 x \<le> ilog2 y"
    using x0 assms by (intro ilog2_mono) simp_all
  then have E: "Ex \<le> Ey" by (simp add: Ex_def Ey_def)
  show ?thesis
  proof (cases "Ex = Ey")
    case True
    then have u: "ulp32 y = ulp32 x" by (simp add: ulp32_def Ex_def Ey_def)
    have "x / ulp32 x \<le> y / ulp32 x"
      using assms(2) ulp32_pos [of x] by (simp add: divide_right_mono)
    then have "rne (x / ulp32 x) \<le> rne (y / ulp32 x)" by (rule rne_mono)
    then have "(of_int (rne (x / ulp32 x)) :: rat) * ulp32 x \<le> of_int (rne (y / ulp32 x)) * ulp32 x"
      using ulp32_pos [of x] by (intro mult_right_mono) simp_all
    then show ?thesis using x0 y0 by (simp add: fl32_def u)
  next
    case False
    with E have lt: "Ex + 1 \<le> Ey" by simp
    then have ey: "- 149 \<le> ilog2 y - 23" and eye: "Ey = ilog2 y - 23"
      by (simp_all add: Ex_def Ey_def max_def split: if_splits)
    have "fl32 x \<le> 2 powi (Ex + 24)"
      using fl32_upper [OF assms(1)] by (simp add: Ex_def)
    also have "\<dots> \<le> 2 powi (ilog2 y)"
      using lt eye by (intro powi2_mono) simp
    also have "\<dots> \<le> fl32 y" using ypos ey by (rule fl32_lower)
    finally show ?thesis .
  qed
qed

lemma fl32_mono: "x \<le> y \<Longrightarrow> fl32 x \<le> fl32 y"
proof -
  assume xy: "x \<le> y"
  consider "0 < x" | "x \<le> 0" "0 \<le> y" | "y < 0" by linarith
  then show ?thesis
  proof cases
    case 1
    then show ?thesis using xy by (rule fl32_mono_pos)
  next
    case 2
    then show ?thesis using fl32_nonpos [of x] fl32_nonneg [of y] by simp
  next
    case 3
    then have "fl32 (- y) \<le> fl32 (- x)" using xy by (intro fl32_mono_pos) simp_all
    then show ?thesis by (simp add: fl32_minus)
  qed
qed

lemma fl32_exact:
  assumes x: "x = of_int m * 2 powi k" and m: "\<bar>m\<bar> < 2 ^ 24" and k: "- 149 \<le> k"
  shows "fl32 x = x"
proof (cases "m = 0")
  case True
  then show ?thesis using x by simp
next
  case False
  then have x0: "x \<noteq> 0" using x by simp
  define E where "E = max (ilog2 x - 23) (- 149)"
  have u: "ulp32 x = 2 powi E" by (simp add: ulp32_def E_def)
  have "(of_int \<bar>m\<bar> :: rat) < of_int (2 ^ 24)" using m by (simp only: of_int_less_iff)
  then have "\<bar>x\<bar> < 2 ^ 24 * 2 powi k"
    unfolding x by (simp add: abs_mult)
  also have "\<dots> = 2 powi (24 + k)" by (simp add: power_int_add)
  finally have "(2::rat) powi (ilog2 x) < 2 powi (24 + k)"
    using ilog2_bounds(1) [OF x0] by simp
  then have "ilog2 x < 24 + k" by (rule powi2_less_cancel)
  then have Ek: "E \<le> k" using k by (simp add: E_def)
  have "(2::rat) powi k = 2 powi (k - E) * 2 powi E"
    by (simp add: power_int_add [symmetric])
  also have "(2::rat) powi (k - E) = of_int (2 ^ nat (k - E))"
    using Ek by (simp add: power_int_nonneg_exp)
  finally have xk: "x = of_int (m * 2 ^ nat (k - E)) * 2 powi E"
    unfolding x by simp
  have "x / 2 powi E = of_int (m * 2 ^ nat (k - E))"
    by (subst xk) simp
  then have r: "rne (x / 2 powi E) = m * 2 ^ nat (k - E)"
    by (simp only: rne_of_int)
  have "fl32 x = of_int (rne (x / ulp32 x)) * ulp32 x"
    using x0 by (simp add: fl32_def)
  also have "\<dots> = of_int (m * 2 ^ nat (k - E)) * 2 powi E"
    by (simp only: u r)
  also have "\<dots> = x" by (rule xk [symmetric])
  finally show ?thesis .
qed

lemma fl32_grid:
  assumes "(2::rat) powi j \<le> \<bar>x\<bar>" and "- 149 \<le> j - 23"
  shows "\<exists>n. fl32 x = of_int n * 2 powi (j - 23)"
proof -
  have x0: "x \<noteq> 0"
    using assms(1) by (metis abs_zero not_le zero_less_numeral zero_less_power_int)
  define E where "E = max (ilog2 x - 23) (- 149)"
  have u: "ulp32 x = 2 powi E" by (simp add: ulp32_def E_def)
  have "(2::rat) powi j < 2 powi (ilog2 x + 1)"
    using assms(1) ilog2_bounds(2) [OF x0] by simp
  then have "j < ilog2 x + 1" by (rule powi2_less_cancel)
  then have jE: "j - 23 \<le> E" by (simp add: E_def)
  have "(2::rat) powi E = 2 powi (E - (j - 23)) * 2 powi (j - 23)"
    by (simp add: power_int_add [symmetric])
  also have "(2::rat) powi (E - (j - 23)) = of_int (2 ^ nat (E - (j - 23)))"
    using jE by (simp add: power_int_nonneg_exp)
  finally have "fl32 x = of_int (rne (x / ulp32 x) * 2 ^ nat (E - (j - 23))) * 2 powi (j - 23)"
    using x0 by (simp add: fl32_def u)
  then show ?thesis ..
qed

lemma fl32_of_int:
  assumes "\<bar>n\<bar> < 2 ^ 24"
  shows "fl32 (of_int n) = of_int n"
  using fl32_exact [of "of_int n" n 0] assms by simp

section \<open>32-bit integers and the cast\<close>

lemma wrap_int_id: "INT_MIN \<le> v \<Longrightarrow> v \<le> INT_MAX \<Longrightarrow> wrap_int v = v"
  unfolding wrap_int_def INT_MIN_def INT_MAX_def
  by (simp add: mod_pos_pos_trivial)

lemma wrap_int_above:
  assumes "INT_MAX < v" and "v \<le> INT_MAX + 4294967296"
  shows "wrap_int v = v - 4294967296"
proof -
  have "(v + 2147483648) mod 4294967296 = v - 2147483648"
    by (rule int_mod_pos_eq [where q = 1]) (use assms in \<open>simp_all add: INT_MAX_def\<close>)
  then show ?thesis by (simp add: wrap_int_def)
qed

lemma float_to_int_floor:
  assumes "0 \<le> x" and "x < 2147483648"
  shows "float_to_int x = \<lfloor>x\<rfloor>"
proof -
  have "0 \<le> \<lfloor>x\<rfloor>" using assms(1) by simp
  moreover have "\<lfloor>x\<rfloor> < 2147483648" using assms(2) by (simp add: floor_less_iff)
  ultimately show ?thesis
    using assms(1) by (simp add: float_to_int_def trunc_def INT_MIN_def INT_MAX_def)
qed


lemma float_to_int_large:
  assumes "2147483648 \<le> x"
  shows "float_to_int x = INT_MIN"
proof -
  have "2147483648 \<le> \<lfloor>x\<rfloor>" using assms by (simp add: le_floor_iff)
  moreover have "0 \<le> x" using assms by simp
  ultimately show ?thesis
    by (simp add: float_to_int_def trunc_def INT_MIN_def INT_MAX_def)
qed

lemma float_to_int_small:
  assumes "x \<le> - 2147483649"
  shows "float_to_int x = INT_MIN"
proof -
  have "\<lceil>x\<rceil> \<le> - 2147483649" using assms by (simp add: ceiling_le_iff)
  moreover have "\<not> 0 \<le> x" using assms by simp
  ultimately show ?thesis
    by (simp add: float_to_int_def trunc_def INT_MIN_def INT_MAX_def Let_def)
qed

lemma float_to_int_range: "INT_MIN \<le> float_to_int x \<and> float_to_int x \<le> INT_MAX"
  by (simp add: float_to_int_def Let_def INT_MIN_def INT_MAX_def)

section \<open>The backlash command\<close>

lemma BacklashToCommand_floor:
  assumes "0 \<le> b" and "fmul b 10 < 2147483648"
  shows "BacklashToCommand b = wrap_int (\<lfloor>fmul b 10\<rfloor> + 1600000)"
    and "0 \<le> \<lfloor>fmul b 10\<rfloor>" and "\<lfloor>fmul b 10\<rfloor> < 2147483648"
proof -
  have nn: "0 \<le> fmul b 10"
    unfolding fmul_def using assms(1) by (intro fl32_nonneg) simp
  then show "0 \<le> \<lfloor>fmul b 10\<rfloor>" by simp
  show "\<lfloor>fmul b 10\<rfloor> < 2147483648" using assms(2) by (simp add: floor_less_iff)
  show "BacklashToCommand b = wrap_int (\<lfloor>fmul b 10\<rfloor> + 1600000)"
    using float_to_int_floor [OF nn assms(2)] by (simp add: BacklashToCommand_def int_add_def)
qed

lemma BacklashToCommand_exact_bounds:
  assumes b: "0 \<le> b" "b * 10 < 2 ^ 24"
  shows "of_int \<lfloor>b * 10\<rfloor> \<le> fmul b 10" and "fmul b 10 \<le> of_int \<lceil>b * 10\<rceil>"
proof -
  have f0: "0 \<le> \<lfloor>b * 10\<rfloor>" using b by simp
  have "\<lfloor>b * 10\<rfloor> < 2 ^ 24" using b by (simp add: floor_less_iff)
  then have "fl32 (of_int \<lfloor>b * 10\<rfloor>) = of_int \<lfloor>b * 10\<rfloor>"
    using f0 by (intro fl32_of_int) simp
  moreover have "fl32 (of_int \<lfloor>b * 10\<rfloor>) \<le> fl32 (b * 10)"
    by (intro fl32_mono) simp
  ultimately show "of_int \<lfloor>b * 10\<rfloor> \<le> fmul b 10"
    by (simp add: fmul_def)
  have c0: "0 \<le> \<lceil>b * 10\<rceil>" using b by (simp add: le_ceiling_iff)
  have "\<lceil>b * 10\<rceil> \<le> 2 ^ 24" using b by (simp add: ceiling_le_iff)
  then have c1: "\<bar>\<lceil>b * 10\<rceil>\<bar> < 2 ^ 24 \<or> \<lceil>b * 10\<rceil> = 2 ^ 24" using c0 by arith
  have "fl32 (of_int \<lceil>b * 10\<rceil>) = of_int \<lceil>b * 10\<rceil>"
  proof -
    from c1 show ?thesis
    proof
      assume "\<bar>\<lceil>b * 10\<rceil>\<bar> < 2 ^ 24"
      then show ?thesis by (rule fl32_of_int)
    next
      assume e: "\<lceil>b * 10\<rceil> = 2 ^ 24"
      have "fl32 (of_int 1 * 2 powi 24) = of_int 1 * 2 powi 24"
        by (rule fl32_exact [OF refl]) simp_all
      then show ?thesis by (simp add: e)
    qed
  qed
  moreover have "fl32 (b * 10) \<le> fl32 (of_int \<lceil>b * 10\<rceil>)"
    by (intro fl32_mono) simp
  ultimately show "fmul b 10 \<le> of_int \<lceil>b * 10\<rceil>"
    by (simp add: fmul_def)
qed

text \<open>
  Claim C8, as the code has it: \<^verbatim>\<open>BacklashToCommand\<close> casts the single-precision product
  \<open>b * 10\<close> to \<^verbatim>\<open>int\<close>, which drops the fraction instead of rounding to the nearest
  integer, and adds 1600000 in 32-bit arithmetic. For every non-negative \<open>b\<close> whose
  single-precision product is below \<open>2145883648 = 2 ^ 31 - 1600000\<close> the result is the
  floor of that product plus 1600000. Beyond that the sum does not fit an \<^verbatim>\<open>int\<close>: for a
  product below \<open>2 ^ 31\<close> the result is that sum less \<open>2 ^ 32\<close>, and for a product of
  \<open>2 ^ 31\<close> and more the cast gives \<^verbatim>\<open>INT_MIN\<close> and the result is \<open>- 2145883648\<close>. As
  long as the exact product \<open>b * 10\<close> is below \<open>2 ^ 24\<close>, the result lies between
  \<open>\<lfloor>b * 10\<rfloor>\<close> and \<open>\<lceil>b * 10\<rceil>\<close> plus 1600000. It is 1600025 at 2.5 and 1600000 at 0.
\<close>

theorem BacklashToCommand_truncates:
  "(0 \<le> b \<and> fmul b 10 < 2145883648 \<longrightarrow>
      BacklashToCommand b = \<lfloor>fmul b 10\<rfloor> + 1600000)
   \<and> (0 \<le> b \<and> 2145883648 \<le> fmul b 10 \<and> fmul b 10 < 2147483648 \<longrightarrow>
      BacklashToCommand b = \<lfloor>fmul b 10\<rfloor> + 1600000 - 4294967296)
   \<and> (2147483648 \<le> fmul b 10 \<longrightarrow> BacklashToCommand b = - 2145883648)
   \<and> (0 \<le> b \<and> b * 10 < 2 ^ 24 \<longrightarrow>
        \<lfloor>b * 10\<rfloor> + 1600000 \<le> BacklashToCommand b
        \<and> BacklashToCommand b \<le> \<lceil>b * 10\<rceil> + 1600000)
   \<and> BacklashToCommand (5 / 2) = 1600025
   \<and> BacklashToCommand 0 = 1600000"
proof (intro conjI impI)
  assume b: "0 \<le> b \<and> fmul b 10 < 2145883648"
  then have p: "fmul b 10 < 2147483648" by simp
  have "\<lfloor>fmul b 10\<rfloor> < 2145883648" using b by (simp add: floor_less_iff)
  then have "wrap_int (\<lfloor>fmul b 10\<rfloor> + 1600000) = \<lfloor>fmul b 10\<rfloor> + 1600000"
    using BacklashToCommand_floor(2) [of b] b p
    by (intro wrap_int_id) (simp_all add: INT_MIN_def INT_MAX_def)
  then show "BacklashToCommand b = \<lfloor>fmul b 10\<rfloor> + 1600000"
    using BacklashToCommand_floor(1) [of b] b p by simp
next
  assume b: "0 \<le> b \<and> 2145883648 \<le> fmul b 10 \<and> fmul b 10 < 2147483648"
  then have "2145883648 \<le> \<lfloor>fmul b 10\<rfloor>" by (simp add: le_floor_iff)
  then have "wrap_int (\<lfloor>fmul b 10\<rfloor> + 1600000) = \<lfloor>fmul b 10\<rfloor> + 1600000 - 4294967296"
    using BacklashToCommand_floor(3) [of b] b
    by (intro wrap_int_above) (simp_all add: INT_MAX_def)
  then show "BacklashToCommand b = \<lfloor>fmul b 10\<rfloor> + 1600000 - 4294967296"
    using BacklashToCommand_floor(1) [of b] b by simp
next
  assume "2147483648 \<le> fmul b 10"
  then have "float_to_int (fmul b 10) = INT_MIN" by (rule float_to_int_large)
  moreover have "wrap_int (- 2145883648) = - 2145883648"
    by (intro wrap_int_id) (simp_all add: INT_MIN_def INT_MAX_def)
  ultimately show "BacklashToCommand b = - 2145883648"
    by (simp add: BacklashToCommand_def int_add_def INT_MIN_def)
next
  assume b: "0 \<le> b \<and> b * 10 < 2 ^ 24"
  then have u: "fmul b 10 \<le> of_int \<lceil>b * 10\<rceil>" and l: "of_int \<lfloor>b * 10\<rfloor> \<le> fmul b 10"
    using BacklashToCommand_exact_bounds [of b] by simp_all
  have "\<lceil>b * 10\<rceil> \<le> 2 ^ 24" using b by (simp add: ceiling_le_iff)
  then have "(of_int \<lceil>b * 10\<rceil> :: rat) \<le> of_int (2 ^ 24)" by (simp only: of_int_le_iff)
  moreover have "(of_int (2 ^ 24) :: rat) = 16777216" by simp
  ultimately have p: "fmul b 10 < 2145883648" using u by linarith
  have "\<lfloor>fmul b 10\<rfloor> < 2145883648" using p by (simp add: floor_less_iff)
  then have "wrap_int (\<lfloor>fmul b 10\<rfloor> + 1600000) = \<lfloor>fmul b 10\<rfloor> + 1600000"
    using BacklashToCommand_floor(2) [of b] b p
    by (intro wrap_int_id) (simp_all add: INT_MIN_def INT_MAX_def)
  then have e: "BacklashToCommand b = \<lfloor>fmul b 10\<rfloor> + 1600000"
    using BacklashToCommand_floor(1) [of b] b p by simp
  have "\<lfloor>b * 10\<rfloor> \<le> \<lfloor>fmul b 10\<rfloor>" using l by (simp add: le_floor_iff)
  moreover have "\<lfloor>fmul b 10\<rfloor> \<le> \<lceil>b * 10\<rceil>" using u by (simp add: floor_le_iff)
  ultimately show "\<lfloor>b * 10\<rfloor> + 1600000 \<le> BacklashToCommand b"
    and "BacklashToCommand b \<le> \<lceil>b * 10\<rceil> + 1600000"
    by (simp_all add: e)
next
  show "BacklashToCommand (5 / 2) = 1600025" by code_simp
next
  show "BacklashToCommand 0 = 1600000" by code_simp
qed

text \<open>
  The theorem at \<open>b = 0.1875\<close> (in range), at \<open>b = 214700000\<close> (the sum overflows) and at
  \<open>b = 214748368\<close> (the cast overflows).
\<close>

theorem BacklashToCommand_truncates_witness:
  "(0::rat) \<le> 3 / 16 \<and> fmul (3 / 16) 10 = 15 / 8 \<and> (3 / 16 :: rat) * 10 < 2 ^ 24
   \<and> BacklashToCommand (3 / 16) = \<lfloor>15 / 8 :: rat\<rfloor> + 1600000
   \<and> \<lfloor>(3 / 16 :: rat) * 10\<rfloor> + 1600000 \<le> BacklashToCommand (3 / 16)
   \<and> BacklashToCommand (3 / 16) \<le> \<lceil>(3 / 16 :: rat) * 10\<rceil> + 1600000
   \<and> BacklashToCommand (3 / 16) = 1600001
   \<and> (0::rat) \<le> 214700000 \<and> fmul 214700000 10 = 2147000064
   \<and> BacklashToCommand 214700000 = \<lfloor>2147000064 :: rat\<rfloor> + 1600000 - 4294967296
   \<and> BacklashToCommand 214700000 = - 2146367232
   \<and> fmul 214748368 10 = 2147483648
   \<and> BacklashToCommand 214748368 = - 2145883648"
proof -
  have a: "fmul (3 / 16) 10 = 15 / 8" by code_simp
  have b: "fmul 214700000 10 = 2147000064" by code_simp
  have c: "fmul 214748368 10 = 2147483648" by code_simp
  have h: "(0::rat) \<le> 3 / 16 \<and> (15 / 8 :: rat) < 2145883648 \<and> (3 / 16 :: rat) * 10 < 2 ^ 24
      \<and> (0::rat) \<le> 214700000 \<and> (2145883648 :: rat) \<le> 2147000064
      \<and> (2147000064 :: rat) < 2147483648 \<and> (2147483648 :: rat) \<le> 2147483648"
    by simp
  have f: "\<lfloor>15 / 8 :: rat\<rfloor> = 1" "\<lfloor>2147000064 :: rat\<rfloor> = 2147000064"
    by (rule floor_unique; simp)+
  note t1 = BacklashToCommand_truncates [of "3 / 16", unfolded a]
  note t2 = BacklashToCommand_truncates [of 214700000, unfolded b]
  note t3 = BacklashToCommand_truncates [of 214748368, unfolded c]
  from h t1 have 1: "BacklashToCommand (3 / 16) = \<lfloor>15 / 8 :: rat\<rfloor> + 1600000"
    and 2: "\<lfloor>(3 / 16 :: rat) * 10\<rfloor> + 1600000 \<le> BacklashToCommand (3 / 16)"
    and 3: "BacklashToCommand (3 / 16) \<le> \<lceil>(3 / 16 :: rat) * 10\<rceil> + 1600000"
    by blast+
  from h t2 have 4: "BacklashToCommand 214700000 = \<lfloor>2147000064 :: rat\<rfloor> + 1600000 - 4294967296"
    by blast
  from h t3 have 5: "BacklashToCommand 214748368 = - 2145883648"
    by blast
  have 6: "BacklashToCommand (3 / 16) = 1600001" using 1 by (simp only: f)
  have 7: "BacklashToCommand 214700000 = - 2146367232" using 4 by (simp only: f)
  from h a b c 1 2 3 4 5 6 7 show ?thesis by blast
qed

text \<open>
  The claim as the specification words it (rounding to the nearest integer) fails at
  \<open>b = 0.1875\<close>, where the product \<open>1.875\<close> is exact in single precision: the code
  returns 1600001, rounding gives 1600002.
\<close>

theorem BacklashToCommand_round_counterexample:
  "BacklashToCommand (3 / 16) = 1600001 \<and> round ((3 / 16 :: rat) * 10) + 1600000 = 1600002"
  by code_simp

section \<open>The shortest-path delta of \<^verbatim>\<open>WRRotatorMoveTo\<close>\<close>

lemma rne_error: "\<bar>of_int (rne q) - q\<bar> \<le> (1 / 2 :: rat)"
proof -
  have a: "of_int \<lfloor>q\<rfloor> \<le> q" and b: "q < of_int \<lfloor>q\<rfloor> + 1"
    by linarith+
  show ?thesis
    unfolding rne_def Let_def using a b by (auto simp: abs_le_iff)
qed

lemma fl32_error:
  assumes "\<bar>x\<bar> < 2 powi j" and "- 149 \<le> j - 24"
  shows "\<bar>fl32 x - x\<bar> \<le> 2 powi (j - 25)"
proof (cases "x = 0")
  case True
  then show ?thesis by simp
next
  case False
  define E where "E = max (ilog2 x - 23) (- 149)"
  have u: "ulp32 x = 2 powi E" by (simp add: ulp32_def E_def)
  have "(2::rat) powi (ilog2 x) < 2 powi j"
    using ilog2_bounds(1) [OF False] assms(1) by simp
  then have "ilog2 x < j" by (rule powi2_less_cancel)
  then have Ej: "E \<le> j - 24" using assms(2) by (simp add: E_def)
  define q where "q = x / 2 powi E"
  have xq: "x = q * 2 powi E" by (simp add: q_def)
  have "\<bar>of_int (rne q) - q\<bar> \<le> 1 / 2" by (rule rne_error)
  then have "\<bar>of_int (rne q) - q\<bar> * 2 powi E \<le> 1 / 2 * (2::rat) powi E"
    by (intro mult_right_mono) simp_all
  moreover have "fl32 x - x = (of_int (rne q) - q) * 2 powi E"
    using False by (simp add: fl32_def u q_def algebra_simps)
  ultimately have "\<bar>fl32 x - x\<bar> \<le> 1 / 2 * (2::rat) powi E"
    by (simp add: abs_mult)
  also have "\<dots> = 2 powi (E - 1)"
    by (simp add: power_int_diff)
  also have "\<dots> \<le> 2 powi (j - 25)"
    using Ej by (intro powi2_mono) simp
  finally show ?thesis .
qed

lemma fl32_exact_frac:
  assumes v: "v = of_int m / 2 ^ n" and b: "\<bar>v\<bar> * 2 ^ n < 2 ^ 24" and n: "n \<le> 149"
  shows "fl32 v = v"
proof -
  have "of_int \<bar>m\<bar> = \<bar>v\<bar> * 2 ^ n"
    by (simp add: v abs_divide)
  also note b
  finally have "(of_int \<bar>m\<bar> :: rat) < of_int (2 ^ 24)" by simp
  then have m: "\<bar>m\<bar> < 2 ^ 24" by (simp only: of_int_less_iff)
  have "v = of_int m * 2 powi (- int n)"
    by (simp add: v power_int_minus divide_inverse)
  then show ?thesis using m
    by (rule fl32_exact) (use n in simp)
qed

lemma fl32_grid_frac:
  assumes "2 ^ j \<le> \<bar>v\<bar>" and "j \<le> 23"
  shows "\<exists>n. fl32 v = of_int n / 2 ^ (23 - j)"
proof -
  have "(2::rat) powi (int j) \<le> \<bar>v\<bar>" using assms(1) by simp
  then obtain n where n: "fl32 v = of_int n * 2 powi (int j - 23)"
    using fl32_grid [of "int j" v] by auto
  have "int j - 23 = - int (23 - j)" using assms(2) by simp
  then have "(2::rat) powi (int j - 23) = 2 powi (- int (23 - j))" by (simp only:)
  also have "\<dots> = 1 / 2 ^ (23 - j)"
    by (simp only: power_int_minus power_int_of_nat inverse_eq_divide)
  finally have "fl32 v = of_int n * (1 / 2 ^ (23 - j))"
    using n by (simp only:)
  then have "fl32 v = of_int n / 2 ^ (23 - j)" by simp
  then show ?thesis ..
qed

lemma fmodf_360:
  assumes "- 360 < x" and "x < 720"
  shows "fmodf x 360 = (if x < 360 then x else x - 360)"
proof -
  consider "x < 0" | "0 \<le> x" "x < 360" | "360 \<le> x" by linarith
  then show ?thesis
  proof cases
    case 1
    then have "\<lceil>x / 360\<rceil> = 0"
      using assms by (simp add: ceiling_eq_iff)
    then show ?thesis using 1 by (simp add: fmodf_def trunc_def divide_less_0_iff)
  next
    case 2
    then have "\<lfloor>x / 360\<rfloor> = 0"
      by (simp add: floor_eq_iff)
    then show ?thesis using 2 by (simp add: fmodf_def trunc_def)
  next
    case 3
    then have "\<lfloor>x / 360\<rfloor> = 1"
      using assms by (simp add: floor_eq_iff)
    then show ?thesis using 3 by (simp add: fmodf_def trunc_def)
  qed
qed

lemma powi_vals:
  "(2::rat) powi (- 16) = 1 / 65536" "(2::rat) powi (- 15) = 1 / 32768"
  "(2::rat) powi (- 17) = 1 / 131072" "(2::rat) powi 9 = 512" "(2::rat) powi 10 = 1024"
  "(2::rat) powi 8 = 256"
  by (simp_all add: power_int_minus)

lemma fl32_consts:
  "fl32 360 = 360" "fl32 (- 360) = - 360" "fl32 540 = 540" "fl32 (- 180) = - 180"
  "fl32 256 = 256" "fl32 76 = 76"
  using fl32_of_int [of 360] fl32_of_int [of "- 360"] fl32_of_int [of 540]
    fl32_of_int [of "- 180"] fl32_of_int [of 256] fl32_of_int [of 76]
  by simp_all

lemma delta_struct:
  assumes "0 \<le> angle" "angle < 360" "0 \<le> current" "current < 360"
  obtains d x where
    "d = fl32 (angle - current)" "x = fl32 (d + 180)"
    "- 360 \<le> d" "d \<le> 360" "- 180 \<le> x" "x \<le> 540"
    "WRRotatorMoveTo_delta angle current =
      (if x < 0 then fl32 (x + 180)
       else if x < 360 then fl32 (x - 180) else fl32 (x - 540))"
proof -
  define d where "d = fl32 (angle - current)"
  define x where "x = fl32 (d + 180)"
  have d1: "- 360 \<le> d"
    using fl32_mono [of "- 360" "angle - current"] assms by (simp add: d_def fl32_consts)
  have d2: "d \<le> 360"
    using fl32_mono [of "angle - current" 360] assms by (simp add: d_def fl32_consts)
  have x1: "- 180 \<le> x"
    using fl32_mono [of "- 180" "d + 180"] d1 by (simp add: x_def fl32_consts)
  have x2: "x \<le> 540"
    using fl32_mono [of "d + 180" 540] d2 by (simp add: x_def fl32_consts)
  have r: "fmodf x 360 = (if x < 360 then x else x - 360)"
    using x1 x2 by (intro fmodf_360) simp_all
  have "WRRotatorMoveTo_delta angle current =
      (if x < 0 then fl32 (x + 180)
       else if x < 360 then fl32 (x - 180) else fl32 (x - 540))"
    unfolding WRRotatorMoveTo_delta_def Let_def fadd_def fsub_def
    unfolding d_def [symmetric] x_def [symmetric] r
    by simp
  then show ?thesis
    using that [of d x] d_def x_def d1 d2 x1 x2 by blast
qed

lemma delta_range:
  assumes "0 \<le> angle" "angle < 360" "0 \<le> current" "current < 360"
  shows "- 180 \<le> WRRotatorMoveTo_delta angle current"
    and "WRRotatorMoveTo_delta angle current < 180"
proof -
  obtain d x where
    d: "d = fl32 (angle - current)" and x: "x = fl32 (d + 180)" and
    db: "- 360 \<le> d" "d \<le> 360" and xb: "- 180 \<le> x" "x \<le> 540" and
    D: "WRRotatorMoveTo_delta angle current =
      (if x < 0 then fl32 (x + 180)
       else if x < 360 then fl32 (x - 180) else fl32 (x - 540))"
    using assms by (rule delta_struct)
  consider (neg) "x < 0" | (mid) "0 \<le> x" "x < 360" | (hi) "360 \<le> x" by linarith
  then have "- 180 \<le> WRRotatorMoveTo_delta angle current
      \<and> WRRotatorMoveTo_delta angle current < 180"
  proof cases
    case neg
    have zneg: "d + 180 < 0"
    proof (rule ccontr)
      assume "\<not> d + 180 < 0"
      then have "0 \<le> fl32 (d + 180)" by (intro fl32_nonneg) simp
      then show False using neg x by simp
    qed
    have yneg: "angle - current < - 180"
    proof (rule ccontr)
      assume "\<not> angle - current < - 180"
      then have "fl32 (- 180) \<le> fl32 (angle - current)" by (intro fl32_mono) simp
      then show False using zneg d by (simp add: fl32_consts)
    qed
    have "2 ^ 7 \<le> \<bar>angle - current\<bar>" using yneg by simp
    then obtain n where n: "d = of_int n / 2 ^ 16"
      using fl32_grid_frac [of 7 "angle - current"] d by auto
    have z: "d + 180 = of_int (n + 11796480) / 2 ^ 16"
      by (simp add: n add_divide_distrib)
    have "\<bar>d + 180\<bar> * 2 ^ 16 < 2 ^ 24" using zneg db by simp
    with z have xe: "x = d + 180"
      unfolding x by (rule fl32_exact_frac) simp
    have "of_int (n + 11796480) < (0::rat)"
      using zneg unfolding z by (simp add: divide_less_0_iff)
    then have "n + 11796480 \<le> - 1" by simp
    then have "(of_int (n + 11796480) :: rat) \<le> of_int (- 1)"
      by (simp only: of_int_le_iff)
    then have xle: "x \<le> - 1 / 2 ^ 16"
      unfolding xe z by (simp add: divide_le_cancel)
    have s: "x + 180 = of_int (n + 23592960) / 2 ^ 16"
      by (simp add: xe n add_divide_distrib)
    have "\<bar>x + 180\<bar> * 2 ^ 16 < 2 ^ 24" using neg xb by simp
    with s have "fl32 (x + 180) = x + 180"
      by (rule fl32_exact_frac) simp
    then show ?thesis using D neg xb xle by simp
  next
    case mid
    have lo: "- 180 \<le> fl32 (x - 180)"
      using fl32_mono [of "- 180" "x - 180"] mid by (simp add: fl32_consts)
    have up: "fl32 (x - 180) < 180"
    proof (cases "x \<le> 256")
      case True
      then have "fl32 (x - 180) \<le> fl32 76" by (intro fl32_mono) simp
      then show ?thesis by (simp add: fl32_consts)
    next
      case False
      have zbig: "256 < d + 180"
      proof (rule ccontr)
        assume "\<not> 256 < d + 180"
        then have "fl32 (d + 180) \<le> fl32 256" by (intro fl32_mono) simp
        then show False using False x by (simp add: fl32_consts)
      qed
      then have "2 ^ 8 \<le> \<bar>d + 180\<bar>" by simp
      then obtain n where n: "x = of_int n / 2 ^ 15"
        using fl32_grid_frac [of 8 "d + 180"] x by auto
      have s: "x - 180 = of_int (n - 5898240) / 2 ^ 15"
        by (simp add: n diff_divide_distrib)
      have "\<bar>x - 180\<bar> * 2 ^ 15 < 2 ^ 24" using mid False by simp
      with s have "fl32 (x - 180) = x - 180"
        by (rule fl32_exact_frac) simp
      then show ?thesis using mid by simp
    qed
    show ?thesis using D mid lo up by simp
  next
    case hi
    have lo: "- 180 \<le> fl32 (x - 540)"
      using fl32_mono [of "- 180" "x - 540"] hi by (simp add: fl32_consts)
    have "fl32 (x - 540) \<le> 0"
      using xb by (intro fl32_nonpos) simp
    then show ?thesis using D hi lo by simp
  qed
  then show "- 180 \<le> WRRotatorMoveTo_delta angle current"
    and "WRRotatorMoveTo_delta angle current < 180" by simp_all
qed

lemma delta_congruent_approx:
  assumes "0 \<le> angle" "angle < 360" "0 \<le> current" "current < 360"
  shows "\<exists>k::int. \<bar>current + WRRotatorMoveTo_delta angle current
                   - (angle + 360 * of_int k)\<bar> \<le> 1 / 2 ^ 14"
proof -
  obtain d x where
    d: "d = fl32 (angle - current)" and x: "x = fl32 (d + 180)" and
    db: "- 360 \<le> d" "d \<le> 360" and xb: "- 180 \<le> x" "x \<le> 540" and
    D: "WRRotatorMoveTo_delta angle current =
      (if x < 0 then fl32 (x + 180)
       else if x < 360 then fl32 (x - 180) else fl32 (x - 540))"
    using assms by (rule delta_struct)
  have "\<bar>angle - current\<bar> < 2 powi 9" using assms by (simp add: powi_vals)
  then have "\<bar>fl32 (angle - current) - (angle - current)\<bar> \<le> 2 powi (9 - 25)"
    by (rule fl32_error) simp
  then have e1: "\<bar>d - (angle - current)\<bar> \<le> 1 / 65536"
    by (simp add: d powi_vals)
  have "\<bar>d + 180\<bar> < 2 powi 10" using db by (simp add: powi_vals)
  then have "\<bar>fl32 (d + 180) - (d + 180)\<bar> \<le> 2 powi (10 - 25)"
    by (rule fl32_error) simp
  then have e2: "\<bar>x - (d + 180)\<bar> \<le> 1 / 32768"
    by (simp add: x powi_vals)
  have e3: "\<bar>fl32 v - v\<bar> \<le> 1 / 131072" if "\<bar>v\<bar> < 256" for v
  proof -
    have "\<bar>v\<bar> < 2 powi 8" using that by (simp add: powi_vals)
    then have "\<bar>fl32 v - v\<bar> \<le> 2 powi (8 - 25)"
      by (rule fl32_error) simp
    then show ?thesis by (simp add: powi_vals)
  qed
  consider (neg) "x < 0" | (mid) "0 \<le> x" "x < 360" | (hi) "360 \<le> x" by linarith
  then show ?thesis
  proof cases
    case neg
    have De: "WRRotatorMoveTo_delta angle current = fl32 (x + 180)"
      using D neg by simp
    have "\<bar>fl32 (x + 180) - (x + 180)\<bar> \<le> 1 / 131072"
      using neg xb by (intro e3) simp
    then have "\<bar>current + fl32 (x + 180) - (angle + 360)\<bar> \<le> 1 / 16384"
      using e1 e2 unfolding abs_le_iff by linarith
    then show ?thesis
      by (intro exI [of _ 1]) (simp add: De)
  next
    case mid
    have De: "WRRotatorMoveTo_delta angle current = fl32 (x - 180)"
      using D mid by simp
    have "\<bar>fl32 (x - 180) - (x - 180)\<bar> \<le> 1 / 131072"
      using mid by (intro e3) simp
    then have "\<bar>current + fl32 (x - 180) - angle\<bar> \<le> 1 / 16384"
      using e1 e2 unfolding abs_le_iff by linarith
    then show ?thesis
      by (intro exI [of _ 0]) (simp add: De)
  next
    case hi
    have De: "WRRotatorMoveTo_delta angle current = fl32 (x - 540)"
      using D hi by simp
    have "\<bar>fl32 (x - 540) - (x - 540)\<bar> \<le> 1 / 131072"
      using hi xb by (intro e3) simp
    then have "\<bar>current + fl32 (x - 540) - (angle - 360)\<bar> \<le> 1 / 16384"
      using e1 e2 unfolding abs_le_iff by linarith
    then show ?thesis
      by (intro exI [of _ "- 1"]) (simp add: De)
  qed
qed

lemma delta_congruent_exact:
  assumes "0 \<le> angle" "angle < 360" "0 \<le> current" "current < 360"
    and a: "angle = of_int a / 2 ^ 14" and b: "current = of_int b / 2 ^ 14"
  shows "\<exists>k::int. current + WRRotatorMoveTo_delta angle current = angle + 360 * of_int k"
proof -
  obtain d x where
    d: "d = fl32 (angle - current)" and x: "x = fl32 (d + 180)" and
    db: "- 360 \<le> d" "d \<le> 360" and xb: "- 180 \<le> x" "x \<le> 540" and
    D: "WRRotatorMoveTo_delta angle current =
      (if x < 0 then fl32 (x + 180)
       else if x < 360 then fl32 (x - 180) else fl32 (x - 540))"
    using assms(1-4) by (rule delta_struct)
  have y: "angle - current = of_int (a - b) / 2 ^ 14"
    by (simp add: a b diff_divide_distrib)
  have "\<bar>angle - current\<bar> * 2 ^ 14 < 2 ^ 24" using assms(1-4) by simp
  with y have de: "d = angle - current"
    unfolding d by (rule fl32_exact_frac) simp
  have z: "d + 180 = of_int (a - b + 2949120) / 2 ^ 14"
    by (simp add: de y add_divide_distrib)
  have "\<bar>d + 180\<bar> * 2 ^ 14 < 2 ^ 24" using db by simp
  with z have xe: "x = d + 180"
    unfolding x by (rule fl32_exact_frac) simp
  have ex: "fl32 (x + of_int m) = x + of_int m" if "\<bar>x + of_int m\<bar> \<le> 180" for m :: int
  proof -
    have "x + of_int m = of_int (a - b + 2949120 + m * 16384) / 2 ^ 14"
      by (simp add: xe z add_divide_distrib)
    moreover have "\<bar>x + of_int m\<bar> * 2 ^ 14 < 2 ^ 24" using that by simp
    ultimately show ?thesis by (rule fl32_exact_frac) simp
  qed
  consider (neg) "x < 0" | (mid) "0 \<le> x" "x < 360" | (hi) "360 \<le> x" by linarith
  then show ?thesis
  proof cases
    case neg
    have "fl32 (x + of_int 180) = x + of_int 180"
      using neg xb by (intro ex) simp
    then have "current + WRRotatorMoveTo_delta angle current = angle + 360 * of_int 1"
      using D neg by (simp add: xe de)
    then show ?thesis ..
  next
    case mid
    have "fl32 (x + of_int (- 180)) = x + of_int (- 180)"
      using mid by (intro ex) simp
    then have "current + WRRotatorMoveTo_delta angle current = angle + 360 * of_int 0"
      using D mid by (simp add: xe de)
    then show ?thesis ..
  next
    case hi
    have "fl32 (x + of_int (- 540)) = x + of_int (- 540)"
      using hi xb by (intro ex) simp
    then have "current + WRRotatorMoveTo_delta angle current = angle + 360 * of_int (- 1)"
      using D hi by (simp add: xe de)
    then show ?thesis ..
  qed
qed

text \<open>
  Claim C1, as the code has it. For every target and current angle in \<open>[0, 360)\<close> the
  delta that \<^verbatim>\<open>WRRotatorMoveTo\<close> computes lies in \<open>[-180, 180)\<close>: the half turn comes out
  as \<open>-180\<close>, never as \<open>180\<close>. \<open>current + delta\<close> is congruent to the target modulo 360
  up to the rounding of the three single-precision operations, which is at most
  \<open>2 powi -14\<close> degrees in total, and exactly congruent when target and current are
  multiples of \<open>2 powi -14\<close> degrees (then no operation rounds).
\<close>

theorem WRRotatorMoveTo_delta_shortest:
  assumes "0 \<le> angle" and "angle < 360" and "0 \<le> current" and "current < 360"
  shows "- 180 \<le> WRRotatorMoveTo_delta angle current
    \<and> WRRotatorMoveTo_delta angle current < 180
    \<and> (\<exists>k::int. \<bar>current + WRRotatorMoveTo_delta angle current
                     - (angle + 360 * of_int k)\<bar> \<le> 1 / 2 ^ 14)
    \<and> ((\<exists>a b::int. angle = of_int a / 2 ^ 14 \<and> current = of_int b / 2 ^ 14) \<longrightarrow>
        (\<exists>k::int. current + WRRotatorMoveTo_delta angle current = angle + 360 * of_int k))"
proof (intro conjI impI)
  show "- 180 \<le> WRRotatorMoveTo_delta angle current"
    using assms by (rule delta_range)
  show "WRRotatorMoveTo_delta angle current < 180"
    using assms by (rule delta_range)
  show "\<exists>k::int. \<bar>current + WRRotatorMoveTo_delta angle current
                   - (angle + 360 * of_int k)\<bar> \<le> 1 / 2 ^ 14"
    using assms by (rule delta_congruent_approx)
next
  assume "\<exists>a b::int. angle = of_int a / 2 ^ 14 \<and> current = of_int b / 2 ^ 14"
  then obtain a b :: int
    where "angle = of_int a / 2 ^ 14" and "current = of_int b / 2 ^ 14" by blast
  with assms
  show "\<exists>k::int. current + WRRotatorMoveTo_delta angle current = angle + 360 * of_int k"
    by (rule delta_congruent_exact)
qed

theorem WRRotatorMoveTo_delta_shortest_witness:
  "(0::rat) \<le> 10 \<and> (10::rat) < 360 \<and> (0::rat) \<le> 350 \<and> (350::rat) < 360
   \<and> (\<exists>a b::int. (10::rat) = of_int a / 2 ^ 14 \<and> (350::rat) = of_int b / 2 ^ 14)
   \<and> WRRotatorMoveTo_delta 10 350 = 20
   \<and> - 180 \<le> WRRotatorMoveTo_delta 10 350
   \<and> WRRotatorMoveTo_delta 10 350 < 180
   \<and> (\<exists>k::int. 350 + WRRotatorMoveTo_delta 10 350 = 10 + 360 * of_int k)"
proof -
  have g: "\<exists>a b::int. (10::rat) = of_int a / 2 ^ 14 \<and> (350::rat) = of_int b / 2 ^ 14"
    by (intro exI [of _ 163840] exI [of _ 5734400]) simp
  have v: "WRRotatorMoveTo_delta 10 350 = 20" by code_simp
  have "- 180 \<le> WRRotatorMoveTo_delta 10 350
    \<and> WRRotatorMoveTo_delta 10 350 < 180
    \<and> (\<exists>k::int. \<bar>350 + WRRotatorMoveTo_delta 10 350 - (10 + 360 * of_int k)\<bar> \<le> 1 / 2 ^ 14)
    \<and> ((\<exists>a b::int. (10::rat) = of_int a / 2 ^ 14 \<and> (350::rat) = of_int b / 2 ^ 14) \<longrightarrow>
        (\<exists>k::int. 350 + WRRotatorMoveTo_delta 10 350 = 10 + 360 * of_int k))"
    by (rule WRRotatorMoveTo_delta_shortest) simp_all
  with g v show ?thesis by simp
qed

text \<open>
  The range as the specification words it, \<open>(-180, 180]\<close>, fails for the half turn:
  target 180 from current 0 gives the delta \<open>-180\<close> (every operation is exact there).
\<close>

theorem WRRotatorMoveTo_delta_range_counterexample:
  "(0::rat) \<le> 180 \<and> (180::rat) < 360 \<and> (0::rat) \<le> 0 \<and> (0::rat) < 360
   \<and> WRRotatorMoveTo_delta 180 0 = - 180
   \<and> \<not> (- 180 < WRRotatorMoveTo_delta 180 0 \<and> WRRotatorMoveTo_delta 180 0 \<le> 180)"
  by code_simp

section \<open>Close, stop, configuration and the read-only calls\<close>

lemma SerialPort_Close_not_open [simp]: "\<not> SerialPort_IsOpen (SerialPort_Close p)"
  by (simp add: SerialPort_IsOpen_def SerialPort_Close_def)

lemma SerialPort_Write_sent:
  assumes "0 \<le> fd p"
  shows "sent (lines (snd (SerialPort_Write p data w)) (fd p)) = sent (lines w (fd p)) @ [data]"
    and "listeners (snd (SerialPort_Write p data w)) = listeners w"
    and "f \<noteq> fd p \<Longrightarrow> lines (snd (SerialPort_Write p data w)) f = lines w f"
  using assms
  by (simp_all add: SerialPort_Write_def Let_def split: list.splits prod.splits)

lemma SerialPort_Write_closed:
  "fd p < 0 \<Longrightarrow> SerialPort_Write p data w = (False, w)"
  by (simp add: SerialPort_Write_def)

lemma SendCommand_open:
  "port device = Some p \<Longrightarrow> 0 \<le> fd p \<Longrightarrow>
   SendCommand device cmd w = SerialPort_Write p cmd w"
  by (simp add: SendCommand_def SerialPort_IsOpen_def)

lemma WRRotatorClose_Some:
  assumes "g_devices s ident = Some device"
  shows "WRRotatorClose ident s =
    (WR_SUCCESS,
     s\<lparr>g_devices := (g_devices s)(ident \<mapsto>
          device\<lparr>listenerRunning := False,
                 port := map_option SerialPort_Close (port device)\<rparr>)\<rparr>)"
  using assms
  by (cases device; cases "port device")
     (simp_all add: WRRotatorClose_def StopMoveListener_def Let_def)

lemma WRRotatorMove_not_open:
  assumes "g_devices s ident = Some device"
    and "\<And>p. port device = Some p \<Longrightarrow> \<not> SerialPort_IsOpen p"
  shows "WRRotatorMove ident angle s = (WR_ERROR_COMMUNICATION, s)"
  using assms by (cases "port device") (simp_all add: WRRotatorMove_def)

lemma WRRotatorMoveTo_not_open:
  assumes "g_devices s ident = Some device"
    and "\<And>p. port device = Some p \<Longrightarrow> \<not> SerialPort_IsOpen p"
  shows "WRRotatorMoveTo ident angle s = (WR_ERROR_COMMUNICATION, s)"
  using assms by (cases "port device") (simp_all add: WRRotatorMoveTo_def)

lemma WRRotatorStopMove_not_open:
  assumes "g_devices s ident = Some device"
    and "\<And>p. port device = Some p \<Longrightarrow> \<not> SerialPort_IsOpen p"
  shows "WRRotatorStopMove ident s = (WR_ERROR_COMMUNICATION, s)"
  using assms by (cases "port device") (simp_all add: WRRotatorStopMove_def)

lemma WRRotatorGetStatus_Some:
  assumes "g_devices s ident = Some device"
  shows "WRRotatorGetStatus ident (Some t) s =
    (WR_SUCCESS,
     Some (t\<lparr>position := status_position (status device),
             moving := status_moving (status device),
             stepsPerRevolution := status_stepsPerRevolution (status device),
             stepSize := status_stepSize (status device)\<rparr>),
     s)"
  using assms by (simp add: WRRotatorGetStatus_def)

text \<open>
  Claim C4, as the code has it. \<^verbatim>\<open>WRRotatorClose\<close> on a known handle returns success,
  clears the listener flag and closes the transport, and leaves the registry entry in
  place (nothing in the SDK ever erases one: \<^verbatim>\<open>WRRotatorOpen\<close> reopens the port of the
  same entry). The other entries and the world are unchanged. An operation on the same
  handle afterwards does not fail with the invalid-handle error: the read-only ones
  succeed, the ones that need the port report a communication error.
\<close>

theorem WRRotatorClose_keeps_entry:
  assumes "g_devices s ident = Some device"
  shows "fst (WRRotatorClose ident s) = WR_SUCCESS
    \<and> g_devices (snd (WRRotatorClose ident s)) ident =
        Some (device\<lparr>listenerRunning := False,
                     port := map_option SerialPort_Close (port device)\<rparr>)
    \<and> (\<forall>p. port device = Some p \<longrightarrow> \<not> SerialPort_IsOpen (SerialPort_Close p))
    \<and> (\<forall>j. j \<noteq> ident \<longrightarrow> g_devices (snd (WRRotatorClose ident s)) j = g_devices s j)
    \<and> world (snd (WRRotatorClose ident s)) = world s
    \<and> fst (WRRotatorGetStatus ident (Some t) (snd (WRRotatorClose ident s))) = WR_SUCCESS
    \<and> fst (WRRotatorMove ident angle (snd (WRRotatorClose ident s))) = WR_ERROR_COMMUNICATION
    \<and> fst (WRRotatorMoveTo ident angle (snd (WRRotatorClose ident s))) = WR_ERROR_COMMUNICATION
    \<and> fst (WRRotatorStopMove ident (snd (WRRotatorClose ident s))) = WR_ERROR_COMMUNICATION"
proof -
  define device' where
    "device' = device\<lparr>listenerRunning := False,
                       port := map_option SerialPort_Close (port device)\<rparr>"
  define s' where "s' = s\<lparr>g_devices := (g_devices s)(ident \<mapsto> device')\<rparr>"
  have c: "WRRotatorClose ident s = (WR_SUCCESS, s')"
    using assms by (simp add: WRRotatorClose_Some s'_def device'_def)
  have g: "g_devices s' ident = Some device'" by (simp add: s'_def)
  have n: "\<not> SerialPort_IsOpen p" if "port device' = Some p" for p
    using that by (auto simp: device'_def)
  show ?thesis
    unfolding c fst_conv snd_conv
    using WRRotatorMove_not_open [OF g n] WRRotatorMoveTo_not_open [OF g n]
      WRRotatorStopMove_not_open [OF g n] WRRotatorGetStatus_Some [OF g]
    by (simp add: g) (simp add: s'_def device'_def)
qed

text \<open>
  The theorem at the example device under handle 0.
\<close>

theorem WRRotatorClose_keeps_entry_witness:
  "g_devices (demo_state demo_device []) 0 = Some demo_device
   \<and> fst (WRRotatorClose 0 (demo_state demo_device [])) = WR_SUCCESS
   \<and> g_devices (snd (WRRotatorClose 0 (demo_state demo_device []))) 0 =
       Some (demo_device\<lparr>listenerRunning := False, port := Some \<lparr>fd = - 1\<rparr>\<rparr>)
   \<and> world (snd (WRRotatorClose 0 (demo_state demo_device []))) = demo_world []
   \<and> fst (WRRotatorGetStatus 0 (Some demo_status)
            (snd (WRRotatorClose 0 (demo_state demo_device [])))) = WR_SUCCESS
   \<and> fst (WRRotatorMove 0 1 (snd (WRRotatorClose 0 (demo_state demo_device []))))
       = WR_ERROR_COMMUNICATION
   \<and> fst (WRRotatorMoveTo 0 1 (snd (WRRotatorClose 0 (demo_state demo_device []))))
       = WR_ERROR_COMMUNICATION
   \<and> fst (WRRotatorStopMove 0 (snd (WRRotatorClose 0 (demo_state demo_device []))))
       = WR_ERROR_COMMUNICATION"
proof -
  have h: "g_devices (demo_state demo_device []) 0 = Some demo_device"
    by (simp add: demo_state_def)
  have p: "map_option SerialPort_Close (port demo_device) = Some \<lparr>fd = - 1\<rparr>"
    by (simp add: demo_device_def SerialPort_Close_def)
  have w: "world (demo_state demo_device []) = demo_world []"
    by (simp add: demo_state_def)
  from WRRotatorClose_keeps_entry [OF h, of demo_status 1] h p w
  show ?thesis by simp
qed

text \<open>
  Against the claim's wording (entry erased, later calls fail with the invalid-handle
  error): after a close of handle 0 the entry is still there, a status read succeeds
  and a stop reports a communication error.
\<close>

theorem WRRotatorClose_erase_counterexample:
  "g_devices (demo_state demo_device []) 0 = Some demo_device
   \<and> fst (WRRotatorClose 0 (demo_state demo_device [])) = WR_SUCCESS
   \<and> g_devices (snd (WRRotatorClose 0 (demo_state demo_device []))) 0 \<noteq> None
   \<and> fst (WRRotatorGetStatus 0 (Some demo_status)
            (snd (WRRotatorClose 0 (demo_state demo_device [])))) = WR_SUCCESS
   \<and> fst (WRRotatorStopMove 0 (snd (WRRotatorClose 0 (demo_state demo_device []))))
       = WR_ERROR_COMMUNICATION"
proof -
  have h: "g_devices (demo_state demo_device []) 0 = Some demo_device"
    by (simp add: demo_state_def)
  define s' where "s' = snd (WRRotatorClose 0 (demo_state demo_device []))"
  have c: "WRRotatorClose 0 (demo_state demo_device []) = (WR_SUCCESS, s')"
    unfolding s'_def using WRRotatorClose_Some [OF h] by simp
  have g: "g_devices s' 0 =
      Some (demo_device\<lparr>listenerRunning := False,
                         port := map_option SerialPort_Close (port demo_device)\<rparr>)"
    unfolding s'_def using WRRotatorClose_Some [OF h] by simp
  have n: "\<not> SerialPort_IsOpen p"
    if "port (demo_device\<lparr>listenerRunning := False,
                         port := map_option SerialPort_Close (port demo_device)\<rparr>) = Some p"
    for p using that by auto
  show ?thesis
    using h c g WRRotatorStopMove_not_open [OF g n] WRRotatorGetStatus_Some [OF g]
    by (simp flip: s'_def)
qed

lemma demo_device_port:
  "port demo_device = Some \<lparr>fd = 3\<rparr>" "port demo_moving_device = Some \<lparr>fd = 3\<rparr>"
  by (simp_all add: demo_device_def demo_moving_device_def)

lemma demo_state_simps:
  "g_devices (demo_state d sc) 0 = Some d" "world (demo_state d sc) = demo_world sc"
  by (simp_all add: demo_state_def)

lemma demo_world_Write:
  "fst (SerialPort_Write \<lparr>fd = 3\<rparr> data (demo_world [])) = True"
  "fst (SerialPort_Write \<lparr>fd = 3\<rparr> data (demo_world ((ok, reply) # sc))) = ok"
  "sent (lines (demo_world sc) 3) = []"
  by (simp_all add: SerialPort_Write_def demo_world_def)

lemma WRRotatorStopMove_open:
  assumes "g_devices s ident = Some device" and "port device = Some p" and "0 \<le> fd p"
  shows "WRRotatorStopMove ident s =
    (if fst (SerialPort_Write p ''stop'' (world s))
     then (WR_SUCCESS,
           s\<lparr>g_devices := (g_devices s)(ident \<mapsto>
                device\<lparr>status := (status device)\<lparr>status_moving := 0\<rparr>\<rparr>),
             world := snd (SerialPort_Write p ''stop'' (world s))\<rparr>)
     else (WR_ERROR_COMMUNICATION,
           s\<lparr>world := snd (SerialPort_Write p ''stop'' (world s))\<rparr>))"
  using assms
  by (simp add: WRRotatorStopMove_def SendCommand_open SerialPort_IsOpen_def
      split: prod.splits)

text \<open>
  Claim C6, as the code has it. On a registered handle with an open port
  \<^verbatim>\<open>WRRotatorStopMove\<close> passes the literal \<^verbatim>\<open>stop\<close> to the transport. When the write
  transmits all bytes the call succeeds and the motion flag is cleared; when it does not,
  the call returns the communication error before the flag is touched and no device is
  changed.
\<close>

theorem WRRotatorStopMove_clears_when_sent:
  assumes "g_devices s ident = Some device" and "port device = Some p" and "0 \<le> fd p"
  shows "sent (lines (world (snd (WRRotatorStopMove ident s))) (fd p))
      = sent (lines (world s) (fd p)) @ [''stop'']
    \<and> (fst (SerialPort_Write p ''stop'' (world s)) \<longrightarrow>
         fst (WRRotatorStopMove ident s) = WR_SUCCESS
         \<and> g_devices (snd (WRRotatorStopMove ident s)) ident =
             Some (device\<lparr>status := (status device)\<lparr>status_moving := 0\<rparr>\<rparr>))
    \<and> (\<not> fst (SerialPort_Write p ''stop'' (world s)) \<longrightarrow>
         fst (WRRotatorStopMove ident s) = WR_ERROR_COMMUNICATION
         \<and> g_devices (snd (WRRotatorStopMove ident s)) = g_devices s)"
  using SerialPort_Write_sent(1) [OF assms(3), of "''stop''" "world s"]
  by (simp add: WRRotatorStopMove_open [OF assms])

text \<open>
  The theorem at a moving device, once with a line that accepts the write and once with
  a line that fails it.
\<close>

theorem WRRotatorStopMove_clears_when_sent_witness:
  "g_devices (demo_state demo_moving_device []) 0 = Some demo_moving_device
   \<and> port demo_moving_device = Some \<lparr>fd = 3\<rparr> \<and> (0::int) \<le> fd \<lparr>fd = 3\<rparr>
   \<and> fst (SerialPort_Write \<lparr>fd = 3\<rparr> ''stop'' (world (demo_state demo_moving_device [])))
   \<and> fst (WRRotatorStopMove 0 (demo_state demo_moving_device [])) = WR_SUCCESS
   \<and> g_devices (snd (WRRotatorStopMove 0 (demo_state demo_moving_device []))) 0 =
       Some (demo_moving_device\<lparr>status := (status demo_moving_device)\<lparr>status_moving := 0\<rparr>\<rparr>)
   \<and> sent (lines (world (snd (WRRotatorStopMove 0 (demo_state demo_moving_device [])))) 3)
       = [''stop'']
   \<and> \<not> fst (SerialPort_Write \<lparr>fd = 3\<rparr> ''stop''
              (world (demo_state demo_moving_device [(False, [])])))
   \<and> fst (WRRotatorStopMove 0 (demo_state demo_moving_device [(False, [])]))
       = WR_ERROR_COMMUNICATION
   \<and> g_devices (snd (WRRotatorStopMove 0 (demo_state demo_moving_device [(False, [])])))
       = g_devices (demo_state demo_moving_device [(False, [])])"
proof -
  have f: "(0::int) \<le> fd \<lparr>fd = 3\<rparr>" by simp
  have h1: "g_devices (demo_state demo_moving_device []) 0 = Some demo_moving_device"
    and h2: "g_devices (demo_state demo_moving_device [(False, [])]) 0
              = Some demo_moving_device"
    by (rule demo_state_simps)+
  note a = WRRotatorStopMove_clears_when_sent [OF h1 demo_device_port(2) f]
  note b = WRRotatorStopMove_clears_when_sent [OF h2 demo_device_port(2) f]
  show ?thesis
    using a b by (simp add: demo_state_simps demo_device_port demo_world_Write)
qed

text \<open>
  Against the claim's wording (the flag is cleared also when the write fails): with a
  failing write the moving device still has \<open>status_moving = 1\<close> after the call.
\<close>

theorem WRRotatorStopMove_failed_write_counterexample:
  "g_devices (demo_state demo_moving_device [(False, [])]) 0 = Some demo_moving_device
   \<and> status_moving (status demo_moving_device) = 1
   \<and> fst (WRRotatorStopMove 0 (demo_state demo_moving_device [(False, [])]))
       = WR_ERROR_COMMUNICATION
   \<and> sent (lines (world (snd (WRRotatorStopMove 0
         (demo_state demo_moving_device [(False, [])])))) 3) = [''stop'']
   \<and> map_option (\<lambda>d. status_moving (status d))
        (g_devices (snd (WRRotatorStopMove 0 (demo_state demo_moving_device [(False, [])]))) 0)
       = Some 1"
proof -
  have f: "(0::int) \<le> fd \<lparr>fd = 3\<rparr>" by simp
  have m: "status_moving (status demo_moving_device) = 1"
    by (simp add: demo_moving_device_def)
  have h: "g_devices (demo_state demo_moving_device [(False, [])]) 0
              = Some demo_moving_device"
    by (rule demo_state_simps)
  show ?thesis
    using SerialPort_Write_sent(1) [OF f, of "''stop''" "demo_world [(False, [])]"]
    by (simp add: WRRotatorStopMove_open [OF h demo_device_port(2) f]
        demo_state_simps demo_world_Write m)
qed

lemma WRRotatorSetConfig_negative_backlash:
  assumes "g_devices s ident = Some device"
    and "cfg_backlash c < 0" and "cfg_mask c AND MASK_ROTATOR_BACKLASH \<noteq> 0"
  shows "cfg_mask c AND MASK_ROTATOR_REVERSE_DIRECTION = 0 \<Longrightarrow>
      WRRotatorSetConfig ident (Some c) s = (WR_ERROR_INVALID_PARAMETER, s)"
    and "cfg_mask c AND MASK_ROTATOR_REVERSE_DIRECTION \<noteq> 0 \<Longrightarrow>
      WRRotatorSetConfig ident (Some c) s =
       (if fst (SendCommand device (ReverseDirectionToCommand (cfg_reverseDirection c)) (world s))
        then (WR_ERROR_INVALID_PARAMETER,
              s\<lparr>g_devices := (g_devices s)(ident \<mapsto>
                   device\<lparr>rotator := (rotator device)\<lparr>
                            rotator_reverseDirection := cfg_reverseDirection c\<rparr>,
                          reverseDirection := cfg_reverseDirection c\<rparr>),
                world := snd (SendCommand device
                   (ReverseDirectionToCommand (cfg_reverseDirection c)) (world s))\<rparr>)
        else (WR_ERROR_COMMUNICATION,
              s\<lparr>world := snd (SendCommand device
                   (ReverseDirectionToCommand (cfg_reverseDirection c)) (world s))\<rparr>))"
  using assms
  by (simp_all add: WRRotatorSetConfig_def Let_def map_upd_triv split: prod.splits)

text \<open>
  Claim C5, as the code has it. \<^verbatim>\<open>WRRotatorSetConfig\<close> handles the reverse-direction
  bit before it looks at the backlash. With a negative backlash and the backlash bit set:
  if the reverse-direction bit is clear, the call returns the invalid-parameter error
  with no write and the whole state unchanged; if it is set, the reverse command is
  written first, and the call returns the invalid-parameter error with both
  reverse-direction fields updated when that write succeeded, the communication error
  otherwise.
\<close>

theorem WRRotatorSetConfig_rejects_negative_backlash:
  assumes "g_devices s ident = Some device"
    and "cfg_backlash c < 0" and "cfg_mask c AND MASK_ROTATOR_BACKLASH \<noteq> 0"
  shows "(cfg_mask c AND MASK_ROTATOR_REVERSE_DIRECTION = 0 \<longrightarrow>
       WRRotatorSetConfig ident (Some c) s = (WR_ERROR_INVALID_PARAMETER, s))
    \<and> (cfg_mask c AND MASK_ROTATOR_REVERSE_DIRECTION \<noteq> 0 \<longrightarrow>
       WRRotatorSetConfig ident (Some c) s =
        (if fst (SendCommand device (ReverseDirectionToCommand (cfg_reverseDirection c)) (world s))
         then (WR_ERROR_INVALID_PARAMETER,
               s\<lparr>g_devices := (g_devices s)(ident \<mapsto>
                    device\<lparr>rotator := (rotator device)\<lparr>
                             rotator_reverseDirection := cfg_reverseDirection c\<rparr>,
                           reverseDirection := cfg_reverseDirection c\<rparr>),
                 world := snd (SendCommand device
                    (ReverseDirectionToCommand (cfg_reverseDirection c)) (world s))\<rparr>)
         else (WR_ERROR_COMMUNICATION,
               s\<lparr>world := snd (SendCommand device
                    (ReverseDirectionToCommand (cfg_reverseDirection c)) (world s))\<rparr>)))"
  using WRRotatorSetConfig_negative_backlash [OF assms] by blast

lemma demo_config_simps:
  "cfg_mask (demo_config m r b) = m" "cfg_reverseDirection (demo_config m r b) = r"
  "cfg_backlash (demo_config m r b) = b"
  by (simp_all add: demo_config_def)

lemma mask_bits:
  "(2 :: 32 word) AND MASK_ROTATOR_BACKLASH \<noteq> 0"
  "(2 :: 32 word) AND MASK_ROTATOR_REVERSE_DIRECTION = 0"
  "(3 :: 32 word) AND MASK_ROTATOR_BACKLASH \<noteq> 0"
  "(3 :: 32 word) AND MASK_ROTATOR_REVERSE_DIRECTION \<noteq> 0"
  by (simp_all add: MASK_ROTATOR_BACKLASH_def MASK_ROTATOR_REVERSE_DIRECTION_def)

lemma demo_reverse_sent:
  "fst (SendCommand demo_device (ReverseDirectionToCommand 1) (demo_world []))"
  "sent (lines (snd (SendCommand demo_device (ReverseDirectionToCommand 1) (demo_world []))) 3)
    = [''1700001\<newline>'']"
  using SerialPort_Write_sent(1) [of "\<lparr>fd = 3\<rparr>" "''1700001\<newline>''" "demo_world []"]
  by (simp_all add: SendCommand_open [OF demo_device_port(1)] ReverseDirectionToCommand_def
      demo_world_Write)

text \<open>
  The theorem at mask \<open>0x02\<close> (backlash only) and at mask \<open>0x03\<close> (both bits).
\<close>

theorem WRRotatorSetConfig_rejects_negative_backlash_witness:
  "g_devices (demo_state demo_device []) 0 = Some demo_device
   \<and> cfg_backlash (demo_config 2 0 (- 1)) < 0
   \<and> cfg_mask (demo_config 2 0 (- 1)) AND MASK_ROTATOR_BACKLASH \<noteq> 0
   \<and> cfg_mask (demo_config 2 0 (- 1)) AND MASK_ROTATOR_REVERSE_DIRECTION = 0
   \<and> WRRotatorSetConfig 0 (Some (demo_config 2 0 (- 1))) (demo_state demo_device [])
       = (WR_ERROR_INVALID_PARAMETER, demo_state demo_device [])
   \<and> cfg_backlash (demo_config 3 1 (- 1)) < 0
   \<and> cfg_mask (demo_config 3 1 (- 1)) AND MASK_ROTATOR_BACKLASH \<noteq> 0
   \<and> cfg_mask (demo_config 3 1 (- 1)) AND MASK_ROTATOR_REVERSE_DIRECTION \<noteq> 0
   \<and> fst (WRRotatorSetConfig 0 (Some (demo_config 3 1 (- 1))) (demo_state demo_device []))
       = WR_ERROR_INVALID_PARAMETER
   \<and> sent (lines (world (snd (WRRotatorSetConfig 0 (Some (demo_config 3 1 (- 1)))
         (demo_state demo_device [])))) 3) = [''1700001\<newline>'']"
proof -
  have a: "cfg_backlash (demo_config 2 0 (- 1)) < 0"
    and b: "cfg_mask (demo_config 2 0 (- 1)) AND MASK_ROTATOR_BACKLASH \<noteq> 0"
    and a': "cfg_backlash (demo_config 3 1 (- 1)) < 0"
    and b': "cfg_mask (demo_config 3 1 (- 1)) AND MASK_ROTATOR_BACKLASH \<noteq> 0"
    by (simp_all add: demo_config_simps mask_bits)
  have h: "g_devices (demo_state demo_device []) 0 = Some demo_device"
    by (rule demo_state_simps)
  note t1 = WRRotatorSetConfig_rejects_negative_backlash [OF h a b]
  note t2 = WRRotatorSetConfig_rejects_negative_backlash [OF h a' b']
  show ?thesis
    using t1 t2
    by (simp add: demo_config_simps mask_bits demo_state_simps demo_reverse_sent)
qed

text \<open>
  Against the claim's wording (no write before the rejection, whatever the other mask
  bits): with mask \<open>0x03\<close> the call returns the invalid-parameter error after it has
  written the reverse command and set the device's reverse direction.
\<close>

theorem WRRotatorSetConfig_write_before_reject_counterexample:
  "g_devices (demo_state demo_device []) 0 = Some demo_device
   \<and> cfg_backlash (demo_config 3 1 (- 1)) < 0
   \<and> cfg_mask (demo_config 3 1 (- 1)) AND MASK_ROTATOR_BACKLASH \<noteq> 0
   \<and> fst (WRRotatorSetConfig 0 (Some (demo_config 3 1 (- 1))) (demo_state demo_device []))
       = WR_ERROR_INVALID_PARAMETER
   \<and> sent (lines (world (demo_state demo_device [])) 3) = []
   \<and> sent (lines (world (snd (WRRotatorSetConfig 0 (Some (demo_config 3 1 (- 1)))
         (demo_state demo_device [])))) 3) = [''1700001\<newline>'']
   \<and> reverseDirection demo_device = 0
   \<and> map_option reverseDirection
        (g_devices (snd (WRRotatorSetConfig 0 (Some (demo_config 3 1 (- 1)))
           (demo_state demo_device []))) 0) = Some 1"
proof -
  have a': "cfg_backlash (demo_config 3 1 (- 1)) < 0"
    and b': "cfg_mask (demo_config 3 1 (- 1)) AND MASK_ROTATOR_BACKLASH \<noteq> 0"
    and c': "cfg_mask (demo_config 3 1 (- 1)) AND MASK_ROTATOR_REVERSE_DIRECTION \<noteq> 0"
    by (simp_all add: demo_config_simps mask_bits)
  have r: "reverseDirection demo_device = 0" by (simp add: demo_device_def)
  have h: "g_devices (demo_state demo_device []) 0 = Some demo_device"
    by (rule demo_state_simps)
  show ?thesis
    using WRRotatorSetConfig_negative_backlash(2) [OF h a' b' c']
    by (simp add: demo_config_simps mask_bits demo_state_simps demo_reverse_sent
        demo_world_Write r)
qed

lemma cstr_no_NUL: "CHR 0x00 \<notin> set m \<Longrightarrow> cstr m = m"
  by (auto simp: cstr_def takeWhile_eq_all_conv)

text \<open>
  Claim C10. For a registered handle and a non-null output struct,
  \<^verbatim>\<open>WRRotatorGetStatus\<close>, \<^verbatim>\<open>WRRotatorGetConfig\<close> and \<^verbatim>\<open>WRRotatorGetVersion\<close> return
  success and the state they were called in: no device field and nothing of the world
  (no serial I/O) changes. Each writes only the fields listed into the caller's struct:
  the four status fields; the reverse direction of the \<^verbatim>\<open>rotator\<close> member and the
  backlash divided by 10 in single precision; the firmware version converted to
  \<^verbatim>\<open>unsigned int\<close> (the same number when it is not negative) and the model string (all
  of it when it has at most 7 characters and no NUL, which is what
  \<^verbatim>\<open>QueryStatus\<close> stores).
\<close>

theorem read_only_operations_copy:
  assumes "g_devices s ident = Some device"
  shows "WRRotatorGetStatus ident (Some t) s =
      (WR_SUCCESS,
       Some (t\<lparr>position := status_position (status device),
               moving := status_moving (status device),
               stepsPerRevolution := status_stepsPerRevolution (status device),
               stepSize := status_stepSize (status device)\<rparr>),
       s)
    \<and> WRRotatorGetConfig ident (Some c) s =
      (WR_SUCCESS,
       Some (c\<lparr>cfg_reverseDirection := rotator_reverseDirection (rotator device),
               cfg_backlash := fdiv (int_to_float (backlash device)) 10\<rparr>),
       s)
    \<and> WRRotatorGetVersion ident (Some v) s =
      (WR_SUCCESS,
       Some (v\<lparr>firmware := word_of_int (firmwareVersion device),
               model := take 7 (cstr (modelType device))\<rparr>),
       s)
    \<and> (\<bar>backlash device\<bar> < 2 ^ 24 \<longrightarrow>
         fdiv (int_to_float (backlash device)) 10 = fl32 (of_int (backlash device) / 10))
    \<and> (0 \<le> firmwareVersion device \<and> firmwareVersion device < 2 ^ 32 \<longrightarrow>
         uint (word_of_int (firmwareVersion device) :: 32 word) = firmwareVersion device)
    \<and> (length (modelType device) \<le> 7 \<and> CHR 0x00 \<notin> set (modelType device) \<longrightarrow>
         take 7 (cstr (modelType device)) = modelType device)"
proof (intro conjI impI)
  show "WRRotatorGetStatus ident (Some t) s =
      (WR_SUCCESS,
       Some (t\<lparr>position := status_position (status device),
               moving := status_moving (status device),
               stepsPerRevolution := status_stepsPerRevolution (status device),
               stepSize := status_stepSize (status device)\<rparr>),
       s)"
    using assms by (rule WRRotatorGetStatus_Some)
  show "WRRotatorGetConfig ident (Some c) s =
      (WR_SUCCESS,
       Some (c\<lparr>cfg_reverseDirection := rotator_reverseDirection (rotator device),
               cfg_backlash := fdiv (int_to_float (backlash device)) 10\<rparr>),
       s)"
    using assms by (simp add: WRRotatorGetConfig_def)
  show "WRRotatorGetVersion ident (Some v) s =
      (WR_SUCCESS,
       Some (v\<lparr>firmware := word_of_int (firmwareVersion device),
               model := take 7 (cstr (modelType device))\<rparr>),
       s)"
    using assms by (simp add: WRRotatorGetVersion_def)
next
  assume "\<bar>backlash device\<bar> < 2 ^ 24"
  then show "fdiv (int_to_float (backlash device)) 10 = fl32 (of_int (backlash device) / 10)"
    by (simp add: fdiv_def int_to_float_def fl32_of_int)
next
  assume "0 \<le> firmwareVersion device \<and> firmwareVersion device < 2 ^ 32"
  then show "uint (word_of_int (firmwareVersion device) :: 32 word) = firmwareVersion device"
    by (simp add: uint_word_of_int)
next
  assume "length (modelType device) \<le> 7 \<and> CHR 0x00 \<notin> set (modelType device)"
  then show "take 7 (cstr (modelType device)) = modelType device"
    by (simp add: cstr_no_NUL)
qed

text \<open>
  The theorem at a device as a status query of a Lite V2 rotator leaves it.
\<close>

theorem read_only_operations_copy_witness:
  "g_devices (demo_state demo_opened_device []) 0 = Some demo_opened_device
   \<and> \<bar>backlash demo_opened_device\<bar> < 2 ^ 24
   \<and> 0 \<le> firmwareVersion demo_opened_device \<and> firmwareVersion demo_opened_device < 2 ^ 32
   \<and> length (modelType demo_opened_device) \<le> 7
   \<and> CHR 0x00 \<notin> set (modelType demo_opened_device)
   \<and> WRRotatorGetStatus 0 (Some demo_status) (demo_state demo_opened_device []) =
      (WR_SUCCESS,
       Some \<lparr>position = 90, moving = 0, stepsPerRevolution = 431640,
             stepSize = Some (7164249 / 8589934592)\<rparr>,
       demo_state demo_opened_device [])
   \<and> WRRotatorGetConfig 0 (Some (demo_config 0 1 7)) (demo_state demo_opened_device []) =
      (WR_SUCCESS, Some (demo_config 0 0 (1 / 2)), demo_state demo_opened_device [])
   \<and> WRRotatorGetVersion 0 (Some demo_version) (demo_state demo_opened_device []) =
      (WR_SUCCESS, Some \<lparr>firmware = 20240101, model = ''LiteV2''\<rparr>,
       demo_state demo_opened_device [])"
proof -
  have h: "g_devices (demo_state demo_opened_device []) 0 = Some demo_opened_device"
    by (rule demo_state_simps)
  have b: "fl32 (of_int 5 / 10) = 1 / 2" by code_simp
  have f: "rotator demo_opened_device = \<lparr>rotator_reverseDirection = 0, rotator_stepRate = 50\<rparr>"
    "backlash demo_opened_device = 5" "firmwareVersion demo_opened_device = 20240101"
    "modelType demo_opened_device = ''LiteV2''"
    "status demo_opened_device = \<lparr>status_position = 90, status_moving = 0,
                 status_stepsPerRevolution = 431640,
                 status_stepSize = Some (7164249 / 8589934592)\<rparr>"
    by (simp_all add: demo_opened_device_def demo_device_def)
  from read_only_operations_copy [OF h, of demo_status "demo_config 0 1 7" demo_version]
  show ?thesis
    using h b by (simp add: f demo_status_def demo_config_def demo_version_def)
qed

section \<open>The status query\<close>

lemma read_until_frame:
  "c \<notin> set body \<Longrightarrow> length body < n \<Longrightarrow> read_until n c (body @ c # rest) = body @ [c]"
  by (induction body arbitrary: n) auto

lemma is_frame_nonempty: "is_frame fr \<Longrightarrow> fr \<noteq> []"
  by (auto simp: is_frame_def)

lemma read_until_is_frame:
  assumes "is_frame fr"
  shows "read_until 31 (CHR ''A'') (fr @ rest) = fr"
proof -
  from assms obtain body where b: "fr = body @ ''A''" "CHR ''A'' \<notin> set body" "length body \<le> 30"
    by (auto simp: is_frame_def)
  have "read_until 31 (CHR ''A'') (body @ CHR ''A'' # rest) = body @ [CHR ''A'']"
    using b(2,3) by (intro read_until_frame) simp_all
  then show ?thesis by (simp add: b(1))
qed

lemma SerialPort_Read_frame:
  assumes "0 \<le> fd p" and "pending (lines w (fd p)) = fr @ rest" and "is_frame fr"
  shows "SerialPort_Read p 32 (CHR ''A'') t w =
    (fr, w\<lparr>lines := (lines w)(fd p := (lines w (fd p))\<lparr>pending := rest\<rparr>)\<rparr>)"
  using assms(1)
  by (simp add: SerialPort_Read_def Let_def assms(2) read_until_is_frame [OF assms(3)])

lemma SerialPort_Read_keeps:
  assumes "SerialPort_Read p n c t w = (buf, w')"
  shows "sent (lines w' f) = sent (lines w f)"
    and "script (lines w' f) = script (lines w f)"
    and "listeners w' = listeners w"
    and "f \<noteq> fd p \<Longrightarrow> lines w' f = lines w f"
  using assms
  by (auto simp: SerialPort_Read_def Let_def split: if_splits)

lemma tcflush_keeps:
  "sent (lines (tcflush f' w) f) = sent (lines w f)"
  "script (lines (tcflush f' w) f) = script (lines w f)"
  "listeners (tcflush f' w) = listeners w"
  "f \<noteq> f' \<Longrightarrow> lines (tcflush f' w) f = lines w f"
  "0 \<le> f' \<Longrightarrow> pending (lines (tcflush f' w) f') = []"
  by (simp_all add: tcflush_def)

lemma SerialPort_Write_result:
  assumes "0 \<le> fd p" and "SerialPort_Write p data w = (ok, w')"
  shows "sent (lines w' (fd p)) = sent (lines w (fd p)) @ [data]"
    and "listeners w' = listeners w"
    and "f \<noteq> fd p \<Longrightarrow> lines w' f = lines w f"
  using assms
  by (auto simp: SerialPort_Write_def Let_def split: list.splits prod.splits)

lemma SerialPort_Write_script:
  assumes "0 \<le> fd p" and "script (lines w (fd p)) = (ok, reply) # sc"
  shows "SerialPort_Write p data w =
    (ok, w\<lparr>lines := (lines w)(fd p :=
           (lines w (fd p))\<lparr>sent := sent (lines w (fd p)) @ [data], script := sc,
             pending := pending (lines w (fd p)) @ reply\<rparr>)\<rparr>)"
  using assms by (simp add: SerialPort_Write_def Let_def)

lemma SerialPort_Read_snd [simp]:
  "sent (lines (snd (SerialPort_Read p n c t w)) f) = sent (lines w f)"
  "listeners (snd (SerialPort_Read p n c t w)) = listeners w"
  "f \<noteq> fd p \<Longrightarrow> lines (snd (SerialPort_Read p n c t w)) f = lines w f"
  by (simp_all add: SerialPort_Read_def Let_def)

lemma SerialPort_Write_snd [simp]:
  "listeners (snd (SerialPort_Write p data w)) = listeners w"
  "f \<noteq> fd p \<Longrightarrow> lines (snd (SerialPort_Write p data w)) f = lines w f"
  by (simp_all add: SerialPort_Write_def Let_def split: list.splits prod.splits)

lemma sscanf_model_Some:
  assumes "sscanf_model (cstr r) = Some m"
  shows "m \<noteq> []" and "length m \<le> 7" and "CHR ''A'' \<notin> set m" and "CHR 0x00 \<notin> set m"
proof -
  from assms have m: "m = take 7 (takeWhile (\<lambda>c. c \<noteq> CHR ''A'') (drop 15 (cstr r)))"
    and n: "m \<noteq> []"
    by (auto simp: sscanf_model_def Let_def split: if_splits)
  show "m \<noteq> []" by (rule n)
  show "length m \<le> 7" by (simp add: m)
  have s: "set m \<subseteq> set (takeWhile (\<lambda>c. c \<noteq> CHR ''A'') (drop 15 (cstr r)))"
    unfolding m by (rule set_take_subset)
  then show "CHR ''A'' \<notin> set m"
    by (auto dest: set_takeWhileD)
  have "set m \<subseteq> set (cstr r)"
    using s by (auto dest: set_takeWhileD in_set_dropD)
  then show "CHR 0x00 \<notin> set m"
    by (auto simp: cstr_def dest: set_takeWhileD)
qed

lemma QueryStatus_line:
  assumes "port device = Some p" and "0 \<le> fd p"
  shows "sent (lines (snd (snd (QueryStatus device w))) (fd p))
      = sent (lines w (fd p)) @ [''1500001\<newline>'']"
    and "listeners (snd (snd (QueryStatus device w))) = listeners w"
    and "f \<noteq> fd p \<Longrightarrow> lines (snd (snd (QueryStatus device w))) f = lines w f"
  using assms
  by (simp_all add: QueryStatus_def Let_def case_prod_beta SerialPort_IsOpen_def
      SerialPort_Write_sent tcflush_keeps split: option.splits)

lemma QueryStatus_derive_fields [simp]:
  "modelType (QueryStatus_derive d) = modelType d"
  "mechanicalAngle (QueryStatus_derive d) = mechanicalAngle d"
  "port (QueryStatus_derive d) = port d"
  by (simp_all add: QueryStatus_derive_def Let_def)

lemma QueryStatus_derive_restore:
  "(QueryStatus_derive d)\<lparr>stepsPerDegree := stepsPerDegree d, status := status d\<rparr> = d"
  by (simp add: QueryStatus_derive_def Let_def)

lemma QueryStatus_True_aux:
  "case QueryStatus device w of (ok, d', w') \<Rightarrow>
     ok \<longrightarrow>
       d' = QueryStatus_derive
              (d'\<lparr>stepsPerDegree := stepsPerDegree device, status := status device\<rparr>)
       \<and> (\<exists>r. sscanf_model (cstr r) = Some (modelType d'))"
proof -
  have e: "QueryStatus_derive d =
      QueryStatus_derive ((QueryStatus_derive d)\<lparr>stepsPerDegree := stepsPerDegree device,
                                                 status := status device\<rparr>)"
    if "stepsPerDegree d = stepsPerDegree device" and "status d = status device" for d
    using QueryStatus_derive_restore [of d] that by simp
  show ?thesis
    by (simp add: QueryStatus_def Let_def case_prod_beta split: option.split)
       (auto intro!: e)
qed

lemma QueryStatus_True:
  assumes "QueryStatus device w = (True, d', w')"
  obtains d0 where "d' = QueryStatus_derive d0"
    and "stepsPerDegree d0 = stepsPerDegree device"
    and "modelType d0 \<noteq> []" and "length (modelType d0) \<le> 7"
    and "CHR ''A'' \<notin> set (modelType d0)" and "CHR 0x00 \<notin> set (modelType d0)"
proof -
  define d0 where
    "d0 = d'\<lparr>stepsPerDegree := stepsPerDegree device, status := status device\<rparr>"
  from QueryStatus_True_aux [of device w] assms
  obtain r where d: "d' = QueryStatus_derive d0"
    and r: "sscanf_model (cstr r) = Some (modelType d')"
    by (auto simp: d0_def)
  have m: "modelType d0 = modelType d'" by (simp add: d0_def)
  have s: "stepsPerDegree d0 = stepsPerDegree device" by (simp add: d0_def)
  show ?thesis
    using that [OF d s] sscanf_model_Some [OF r] by (simp add: m)
qed

lemma QueryStatus_derive_steps:
  "stepsPerDegree (QueryStatus_derive d) =
    (if string_find (modelType d) ''Mini'' \<noteq> None then 1142
     else if string_find (modelType d) ''Lite'' \<noteq> None
     then (if string_find (modelType d) ''V2'' \<noteq> None then 1199 else 1155)
     else stepsPerDegree d)"
  by (simp add: QueryStatus_derive_def Let_def)

lemma QueryStatus_derive_status:
  "status_stepsPerRevolution (status (QueryStatus_derive d))
     = stepsPerDegree (QueryStatus_derive d) * 360"
  "status_stepSize (status (QueryStatus_derive d)) =
     (if stepsPerDegree (QueryStatus_derive d) = 0 then None
      else Some (fdiv 1 (int_to_float (stepsPerDegree (QueryStatus_derive d)))))"
  "status_position (status (QueryStatus_derive d))
     = fdiv (int_to_float (mechanicalAngle d)) 1000"
  by (simp_all add: QueryStatus_derive_def Let_def)

lemma string_find_Some:
  "string_find s n \<noteq> None \<Longrightarrow> \<exists>i. take (length n) (drop i s) = n \<and> i + length n \<le> length s"
proof (induction s)
  case Nil
  then show ?case by (auto split: if_splits)
next
  case (Cons c cs)
  show ?case
  proof (cases "take (length n) (c # cs) = n")
    case True
    then have "length (take (length n) (c # cs)) = length n" by simp
    then have "length n \<le> length (c # cs)"
      unfolding length_take by linarith
    with True show ?thesis by (intro exI [of _ 0]) simp
  next
    case False
    with Cons.prems have "string_find cs n \<noteq> None" by (auto split: if_splits)
    then obtain i where "take (length n) (drop i cs) = n" "i + length n \<le> length cs"
      using Cons.IH by blast
    then show ?thesis by (intro exI [of _ "Suc i"]) simp
  qed
qed

lemma occurrence_nth:
  assumes "take (length n) (drop i s) = n" and "i + length n \<le> length s" and "k < length n"
  shows "s ! (i + k) = n ! k"
proof -
  have "n ! k = take (length n) (drop i s) ! k" by (simp add: assms(1))
  also have "\<dots> = s ! (i + k)" using assms(2,3) by simp
  finally show ?thesis by simp
qed

lemma Mini_Lite_exclusive:
  assumes "length s \<le> 7" and "string_find s ''Lite'' \<noteq> None"
  shows "string_find s ''Mini'' = None"
proof (rule ccontr)
  assume "string_find s ''Mini'' \<noteq> None"
  then obtain i where i: "take (length ''Mini'') (drop i s) = ''Mini''"
      "i + length ''Mini'' \<le> length s"
    using string_find_Some by blast
  from assms(2) obtain j where j: "take (length ''Lite'') (drop j s) = ''Lite''"
      "j + length ''Lite'' \<le> length s"
    using string_find_Some by blast
  have M: "s ! i = CHR ''M''" "s ! (i + 1) = CHR ''i''" "s ! (i + 2) = CHR ''n''"
      "s ! (i + 3) = CHR ''i''"
    using occurrence_nth [OF i, of 0] occurrence_nth [OF i, of 1]
      occurrence_nth [OF i, of 2] occurrence_nth [OF i, of 3] by simp_all
  have L: "s ! j = CHR ''L''" "s ! (j + 1) = CHR ''i''" "s ! (j + 2) = CHR ''t''"
      "s ! (j + 3) = CHR ''e''"
    using occurrence_nth [OF j, of 0] occurrence_nth [OF j, of 1]
      occurrence_nth [OF j, of 2] occurrence_nth [OF j, of 3] by simp_all
  have "i \<le> 3" "j \<le> 3" using i(2) j(2) assms(1) by simp_all
  then have "i \<in> {0, 1, 2, 3}" "j \<in> {0, 1, 2, 3}" by auto
  then show False using M L by (auto simp: eval_nat_numeral)
qed

lemma Line_updated:
  "(L :: Line)\<lparr>sent := a, script := b, pending := c\<rparr> = \<lparr>sent = a, script = b, pending = c\<rparr>"
  "(L :: Line)\<lparr>pending := c, sent := a, script := b\<rparr> = \<lparr>sent = a, script = b, pending = c\<rparr>"
  by (cases L, simp)+

lemma QueryStatus_frames:
  assumes p: "port device = Some p" and f: "0 \<le> fd p"
    and sc: "script (lines w (fd p)) = (True, f1 @ f2 @ f3 @ f4 @ f5) # sc"
    and fr: "is_frame f1" "is_frame f2" "is_frame f3" "is_frame f4" "is_frame f5"
    and p1: "sscanf_model (cstr f1) = Some m"
    and p2: "sscanf_d (cstr f2) = Some fw"
    and p3: "sscanf_d (cstr f3) = Some ang"
    and p4: "sscanf_f (cstr f4) = Some bl"
    and p5: "sscanf_d (cstr f5) = Some rv"
  shows "QueryStatus device w =
    (True,
     QueryStatus_derive (device\<lparr>modelType := m, firmwareVersion := fw,
        mechanicalAngle := ang, backlash := fp_to_int (fp_mul bl 10),
        reverseDirection := rv\<rparr>),
     w\<lparr>lines := (lines w)(fd p :=
         \<lparr>sent = sent (lines w (fd p)) @ [''1500001\<newline>''], script = sc,
          pending = []\<rparr>)\<rparr>)"
proof -
  define wl where "wl q = w\<lparr>lines := (lines w)(fd p :=
         \<lparr>sent = sent (lines w (fd p)) @ [''1500001\<newline>''], script = sc,
          pending = q\<rparr>)\<rparr>" for q
  have o: "SerialPort_IsOpen p" using f by (simp add: SerialPort_IsOpen_def)
  have W: "SerialPort_Write p ''1500001\<newline>'' (tcflush (fd p) w)
      = (True, wl (f1 @ f2 @ f3 @ f4 @ f5))"
    using f sc
    by (subst SerialPort_Write_script [where ok = True and reply = "f1 @ f2 @ f3 @ f4 @ f5"
          and sc = sc])
       (simp_all add: tcflush_def wl_def Line_updated)
  have R: "SerialPort_Read p 32 (CHR ''A'') t (wl (x @ rest)) = (x, wl rest)"
    if "is_frame x" for x rest t
    using f that
    by (subst SerialPort_Read_frame [where fr = x and rest = rest])
       (simp_all add: wl_def)
  have R1: "SerialPort_Read p 32 (CHR ''A'') 3000 (wl (f1 @ f2 @ f3 @ f4 @ f5))
      = (f1, wl (f2 @ f3 @ f4 @ f5))"
    using fr(1) by (rule R)
  have R2: "SerialPort_Read p 32 (CHR ''A'') 3000 (wl (f2 @ f3 @ f4 @ f5))
      = (f2, wl (f3 @ f4 @ f5))"
    using fr(2) by (rule R)
  have R3: "SerialPort_Read p 32 (CHR ''A'') 3000 (wl (f3 @ f4 @ f5)) = (f3, wl (f4 @ f5))"
    using fr(3) by (rule R)
  have R4: "SerialPort_Read p 32 (CHR ''A'') 3000 (wl (f4 @ f5)) = (f4, wl f5)"
    using fr(4) by (rule R)
  have R5: "SerialPort_Read p 32 (CHR ''A'') 3000 (wl f5) = (f5, wl [])"
    using R [OF fr(5), of 3000 "[]"] by simp
  note ne = fr [THEN is_frame_nonempty]
  show ?thesis
    unfolding QueryStatus_def
    by (simp add: p o W R1 R2 R3 R4 R5 ne p1 p2 p3 p4 p5 Let_def) (simp add: wl_def)
qed

lemma demo_world_line:
  "script (lines (demo_world sc) f) = sc" "sent (lines (demo_world sc) f) = []"
  "listeners (demo_world sc) = 0"
  by (simp_all add: demo_world_def)

lemma is_frameI:
  assumes "fr \<noteq> []" and "last fr = CHR ''A''" and "CHR ''A'' \<notin> set (butlast fr)"
    and "length fr \<le> 31"
  shows "is_frame fr"
  unfolding is_frame_def
proof (intro exI conjI)
  show "fr = butlast fr @ ''A''" using assms(1,2) by (metis append_butlast_last_id)
  show "CHR ''A'' \<notin> set (butlast fr)" by (rule assms(3))
  show "length (butlast fr) \<le> 30" using assms(4) by simp
qed

lemma demo_frames:
  "is_frame ''20240101A''" "is_frame ''90000A''" "is_frame ''0.5A''" "is_frame ''0A''"
  "is_frame ''WandererRotatorProA''" "is_frame ''WandererRotatorMiniA''"
  "is_frame ''WandererRotatorLiteA''" "is_frame ''WandererRotatorLiteV2A''"
  by (rule is_frameI; simp)+

lemma demo_parses:
  "sscanf_d (cstr ''20240101A'') = Some 20240101"
  "sscanf_d (cstr ''90000A'') = Some 90000"
  "sscanf_d (cstr ''0A'') = Some 0"
  by (simp_all add: sscanf_d_def cstr_def scan_sign_def isspace_def isdigit_def
      dec_value_def digit_value_def wrap_int_def LONG_MIN_def LONG_MAX_def)

lemma demo_parse_float: "sscanf_f (cstr ''0.5A'') = Some (Finite (1 / 2))"
  by code_simp

lemma demo_parse_models:
  "sscanf_model (cstr ''WandererRotatorProA'') = Some ''Pro''"
  "sscanf_model (cstr ''WandererRotatorMiniA'') = Some ''Mini''"
  "sscanf_model (cstr ''WandererRotatorLiteA'') = Some ''Lite''"
  "sscanf_model (cstr ''WandererRotatorLiteV2A'') = Some ''LiteV2''"
  by (simp_all add: sscanf_model_def cstr_def)

lemma demo_backlash: "fp_to_int (fp_mul (Finite (1 / 2)) 10) = 5"
  by code_simp

lemma demo_backlash_rounded: "fp_to_int (round_to_float 5) = 5"
  by code_simp

lemma demo_position: "fdiv (int_to_float 90000) 1000 = 90"
  by code_simp

lemma demo_finds:
  "string_find ''Pro'' ''Mini'' = None" "string_find ''Pro'' ''Lite'' = None"
  "string_find ''Mini'' ''Mini'' \<noteq> None"
  "string_find ''Lite'' ''Lite'' \<noteq> None" "string_find ''Lite'' ''V2'' = None"
  "string_find ''Lite'' ''Mini'' = None"
  "string_find ''LiteV2'' ''Lite'' \<noteq> None" "string_find ''LiteV2'' ''V2'' \<noteq> None"
  "string_find ''LiteV2'' ''Mini'' = None"
  by simp_all

lemma demo_QueryStatus:
  assumes "is_frame (''WandererRotator'' @ name @ ''A'')"
    and "sscanf_model (cstr (''WandererRotator'' @ name @ ''A'')) = Some m"
  shows "QueryStatus demo_device (demo_world (demo_reply name)) =
    (True,
     QueryStatus_derive (demo_device\<lparr>modelType := m, firmwareVersion := 20240101,
        mechanicalAngle := 90000, backlash := 5, reverseDirection := 0\<rparr>),
     (demo_world (demo_reply name))\<lparr>lines := (lines (demo_world (demo_reply name)))(3 :=
         \<lparr>sent = [''1500001\<newline>''], script = [], pending = []\<rparr>)\<rparr>)"
proof -
  have f: "(0::int) \<le> fd \<lparr>fd = 3\<rparr>" by simp
  have s: "script (lines (demo_world (demo_reply name)) (fd \<lparr>fd = 3\<rparr>)) =
      (True, (''WandererRotator'' @ name @ ''A'') @ ''20240101A'' @ ''90000A'' @ ''0.5A'' @ ''0A'')
        # []"
    by (simp add: demo_world_line demo_reply_def)
  show ?thesis
    using QueryStatus_frames [OF demo_device_port(1) f s assms(1) demo_frames(1-4)
        assms(2) demo_parses(1,2) demo_parse_float demo_parses(3)]
    by (simp add: demo_world_line demo_backlash_rounded)
qed

text \<open>
  Claim C2, as the code has it. \<^verbatim>\<open>QueryStatus\<close> sets \<^verbatim>\<open>stepsPerDegree\<close> only for a model
  name that contains \<^verbatim>\<open>Mini\<close> or \<^verbatim>\<open>Lite\<close> and has no branch for any other name. After
  a successful status query \<^verbatim>\<open>stepsPerDegree\<close> is strictly positive exactly when the
  model name read contains \<^verbatim>\<open>Mini\<close> or \<^verbatim>\<open>Lite\<close>, or the field was already positive before
  the query.
\<close>

theorem QueryStatus_steps_positive:
  assumes "QueryStatus device w = (True, device', w')"
  shows "(0 < stepsPerDegree device') =
    (string_find (modelType device') ''Mini'' \<noteq> None
     \<or> string_find (modelType device') ''Lite'' \<noteq> None
     \<or> 0 < stepsPerDegree device)"
proof -
  from assms obtain d0 where d: "device' = QueryStatus_derive d0"
    and s: "stepsPerDegree d0 = stepsPerDegree device"
    by (rule QueryStatus_True)
  show ?thesis
    unfolding d by (simp add: QueryStatus_derive_steps s)
qed

text \<open>
  The theorem at the example device (steps per degree 0) answering as a Lite V2.
\<close>

theorem QueryStatus_steps_positive_witness:
  "QueryStatus demo_device (demo_world (demo_reply ''LiteV2'')) =
     (True, fst (snd (QueryStatus demo_device (demo_world (demo_reply ''LiteV2'')))),
      snd (snd (QueryStatus demo_device (demo_world (demo_reply ''LiteV2'')))))
   \<and> stepsPerDegree demo_device = 0
   \<and> modelType (fst (snd (QueryStatus demo_device (demo_world (demo_reply ''LiteV2'')))))
       = ''LiteV2''
   \<and> string_find ''LiteV2'' ''Lite'' \<noteq> None
   \<and> 0 < stepsPerDegree
         (fst (snd (QueryStatus demo_device (demo_world (demo_reply ''LiteV2'')))))"
proof -
  have fr: "is_frame (''WandererRotator'' @ ''LiteV2'' @ ''A'')"
    using demo_frames(8) by simp
  have pm: "sscanf_model (cstr (''WandererRotator'' @ ''LiteV2'' @ ''A'')) = Some ''LiteV2''"
    using demo_parse_models(4) by simp
  note q = demo_QueryStatus [OF fr pm]
  have e: "QueryStatus demo_device (demo_world (demo_reply ''LiteV2'')) =
     (True, fst (snd (QueryStatus demo_device (demo_world (demo_reply ''LiteV2'')))),
      snd (snd (QueryStatus demo_device (demo_world (demo_reply ''LiteV2'')))))"
    by (simp add: q)
  have m: "modelType (fst (snd (QueryStatus demo_device (demo_world (demo_reply ''LiteV2'')))))
       = ''LiteV2''"
    by (simp add: q)
  have z: "stepsPerDegree demo_device = 0" by (simp add: demo_device_def)
  from QueryStatus_steps_positive [OF e] show ?thesis
    using e m z demo_finds(7) by simp
qed

text \<open>
  Against the claim's wording (a successful query never leaves the field at 0): a device
  that answers \<^verbatim>\<open>WandererRotatorProA20240101A90000A0.5A0A\<close> makes the query succeed
  and leaves \<^verbatim>\<open>stepsPerDegree\<close> at 0.
\<close>

theorem QueryStatus_unknown_model_counterexample:
  "stepsPerDegree demo_device = 0
   \<and> demo_reply ''Pro'' = [(True, ''WandererRotatorProA20240101A90000A0.5A0A'')]
   \<and> fst (QueryStatus demo_device (demo_world (demo_reply ''Pro'')))
   \<and> stepsPerDegree (fst (snd (QueryStatus demo_device (demo_world (demo_reply ''Pro''))))) = 0"
proof -
  have fr: "is_frame (''WandererRotator'' @ ''Pro'' @ ''A'')"
    using demo_frames(5) by simp
  have pm: "sscanf_model (cstr (''WandererRotator'' @ ''Pro'' @ ''A'')) = Some ''Pro''"
    using demo_parse_models(1) by simp
  note q = demo_QueryStatus [OF fr pm]
  have z: "stepsPerDegree demo_device = 0" by (simp add: demo_device_def)
  show ?thesis
    by (simp add: q QueryStatus_derive_steps demo_finds z) (simp add: demo_reply_def)
qed

lemma recognised_steps_exact:
  "n \<in> {1142, 1199, 1155} \<Longrightarrow> int_to_float n = of_int n"
  unfolding int_to_float_def by (rule fl32_of_int) auto

text \<open>
  Claim C7. After a successful status query, with the model name the query stored:
  \<^verbatim>\<open>stepsPerDegree\<close> is 1142 if the name contains \<^verbatim>\<open>Mini\<close>, 1199 if it contains
  \<^verbatim>\<open>Lite\<close> and \<^verbatim>\<open>V2\<close>, 1155 if it contains \<^verbatim>\<open>Lite\<close> and not \<^verbatim>\<open>V2\<close> (a stored name
  has at most seven characters, so it cannot contain both \<^verbatim>\<open>Mini\<close> and \<^verbatim>\<open>Lite\<close>);
  \<^verbatim>\<open>stepsPerRevolution\<close> is \<open>stepsPerDegree * 360\<close>, and for these models
  \<^verbatim>\<open>stepSize\<close> is the single-precision quotient \<open>1 / stepsPerDegree\<close>.
\<close>

theorem QueryStatus_model_steps:
  assumes "QueryStatus device w = (True, device', w')"
  shows "(string_find (modelType device') ''Mini'' \<noteq> None \<longrightarrow>
            stepsPerDegree device' = 1142)
    \<and> (string_find (modelType device') ''Lite'' \<noteq> None
         \<and> string_find (modelType device') ''V2'' \<noteq> None \<longrightarrow>
            stepsPerDegree device' = 1199)
    \<and> (string_find (modelType device') ''Lite'' \<noteq> None
         \<and> string_find (modelType device') ''V2'' = None \<longrightarrow>
            stepsPerDegree device' = 1155)
    \<and> status_stepsPerRevolution (status device') = stepsPerDegree device' * 360
    \<and> (string_find (modelType device') ''Mini'' \<noteq> None
         \<or> string_find (modelType device') ''Lite'' \<noteq> None \<longrightarrow>
            status_stepSize (status device')
              = Some (fl32 (1 / of_int (stepsPerDegree device'))))"
proof -
  from assms obtain d0 where d: "device' = QueryStatus_derive d0"
    and l: "length (modelType d0) \<le> 7"
    by (rule QueryStatus_True)
  have x: "string_find (modelType d0) ''Mini'' = None"
    if "string_find (modelType d0) ''Lite'' \<noteq> None"
    using l that by (rule Mini_Lite_exclusive)
  have r: "stepsPerDegree (QueryStatus_derive d0) \<in> {1142, 1199, 1155}"
    if "string_find (modelType d0) ''Mini'' \<noteq> None
        \<or> string_find (modelType d0) ''Lite'' \<noteq> None"
    using that by (auto simp: QueryStatus_derive_steps)
  show ?thesis
    unfolding d
    using x r recognised_steps_exact [OF r]
    by (auto simp: QueryStatus_derive_steps QueryStatus_derive_status fdiv_def)
qed

lemma demo_query:
  assumes "is_frame (''WandererRotator'' @ name @ ''A'')"
    and "sscanf_model (cstr (''WandererRotator'' @ name @ ''A'')) = Some m"
  shows "QueryStatus demo_device (demo_world (demo_reply name)) =
     (True, fst (snd (QueryStatus demo_device (demo_world (demo_reply name)))),
      snd (snd (QueryStatus demo_device (demo_world (demo_reply name)))))"
    and "modelType (fst (snd (QueryStatus demo_device (demo_world (demo_reply name))))) = m"
  by (simp_all add: demo_QueryStatus [OF assms])

text \<open>
  The theorem at the three models of the specification's examples.
\<close>

theorem QueryStatus_model_steps_witness:
  "fst (QueryStatus demo_device (demo_world (demo_reply ''Mini'')))
   \<and> string_find ''Mini'' ''Mini'' \<noteq> None
   \<and> stepsPerDegree (fst (snd (QueryStatus demo_device (demo_world (demo_reply ''Mini'')))))
       = 1142
   \<and> status_stepsPerRevolution
        (status (fst (snd (QueryStatus demo_device (demo_world (demo_reply ''Mini''))))))
       = 411120
   \<and> status_stepSize
        (status (fst (snd (QueryStatus demo_device (demo_world (demo_reply ''Mini''))))))
       = Some (fl32 (1 / 1142))
   \<and> fst (QueryStatus demo_device (demo_world (demo_reply ''LiteV2'')))
   \<and> string_find ''LiteV2'' ''Lite'' \<noteq> None \<and> string_find ''LiteV2'' ''V2'' \<noteq> None
   \<and> stepsPerDegree (fst (snd (QueryStatus demo_device (demo_world (demo_reply ''LiteV2'')))))
       = 1199
   \<and> fst (QueryStatus demo_device (demo_world (demo_reply ''Lite'')))
   \<and> string_find ''Lite'' ''Lite'' \<noteq> None \<and> string_find ''Lite'' ''V2'' = None
   \<and> stepsPerDegree (fst (snd (QueryStatus demo_device (demo_world (demo_reply ''Lite'')))))
       = 1155"
proof -
  have f1: "is_frame (''WandererRotator'' @ ''Mini'' @ ''A'')"
    and f2: "is_frame (''WandererRotator'' @ ''LiteV2'' @ ''A'')"
    and f3: "is_frame (''WandererRotator'' @ ''Lite'' @ ''A'')"
    using demo_frames by simp_all
  have p1: "sscanf_model (cstr (''WandererRotator'' @ ''Mini'' @ ''A'')) = Some ''Mini''"
    and p2: "sscanf_model (cstr (''WandererRotator'' @ ''LiteV2'' @ ''A'')) = Some ''LiteV2''"
    and p3: "sscanf_model (cstr (''WandererRotator'' @ ''Lite'' @ ''A'')) = Some ''Lite''"
    using demo_parse_models by simp_all
  note a = QueryStatus_model_steps [OF demo_query(1) [OF f1 p1]]
  note b = QueryStatus_model_steps [OF demo_query(1) [OF f2 p2]]
  note c = QueryStatus_model_steps [OF demo_query(1) [OF f3 p3]]
  have t: "fst (QueryStatus demo_device (demo_world (demo_reply ''Mini'')))"
    "fst (QueryStatus demo_device (demo_world (demo_reply ''LiteV2'')))"
    "fst (QueryStatus demo_device (demo_world (demo_reply ''Lite'')))"
    by (simp_all add: demo_QueryStatus [OF f1 p1] demo_QueryStatus [OF f2 p2]
        demo_QueryStatus [OF f3 p3])
  show ?thesis
    using a b c t
    by (simp add: demo_query(2) [OF f1 p1] demo_query(2) [OF f2 p2]
        demo_query(2) [OF f3 p3] demo_finds)
qed

lemma WRRotatorMoveTo_delta_same: "WRRotatorMoveTo_delta a a = 0"
proof -
  have "fl32 180 = 180" using fl32_of_int [of 180] by simp
  moreover have "fmodf 180 360 = 180" using fmodf_360 [of 180] by simp
  ultimately show ?thesis
    by (simp add: WRRotatorMoveTo_delta_def fsub_def fadd_def Let_def)
qed

lemma WRRotatorMoveTo_at_target:
  assumes "g_devices s ident = Some device" and "port device = Some p" and "0 \<le> fd p"
    and "0 \<le> angle" and "angle < 360"
    and "QueryStatus device (world s) = (True, device', w')"
    and "fdiv (int_to_float (mechanicalAngle device')) 1000 = angle"
  shows "WRRotatorMoveTo ident angle s =
    (WR_SUCCESS, s\<lparr>g_devices := (g_devices s)(ident \<mapsto> device'), world := w'\<rparr>)"
  using assms
  by (simp add: WRRotatorMoveTo_def SerialPort_IsOpen_def Let_def
      WRRotatorMoveTo_delta_same)

text \<open>
  Claim C9, as the code has it. \<^verbatim>\<open>WRRotatorMoveTo\<close> reads the current angle with
  \<^verbatim>\<open>QueryStatus\<close>, which writes the status request \<^verbatim>\<open>1500001\<close> to the transport. On
  a registered handle with an open port and a target in \<open>[0, 360)\<close>, when the status
  query succeeds and reports the target as the current angle, the call returns success
  in the state the query left: the status request is the only write to the line, no
  move command is sent, no listener thread is started and no other line is touched.
\<close>

theorem WRRotatorMoveTo_at_target_only_queries:
  assumes "g_devices s ident = Some device" and "port device = Some p" and "0 \<le> fd p"
    and "0 \<le> angle" and "angle < 360"
    and "QueryStatus device (world s) = (True, device', w')"
    and "fdiv (int_to_float (mechanicalAngle device')) 1000 = angle"
  shows "WRRotatorMoveTo ident angle s =
      (WR_SUCCESS, s\<lparr>g_devices := (g_devices s)(ident \<mapsto> device'), world := w'\<rparr>)
    \<and> sent (lines w' (fd p)) = sent (lines (world s) (fd p)) @ [''1500001\<newline>'']
    \<and> listeners w' = listeners (world s)
    \<and> (\<forall>f. f \<noteq> fd p \<longrightarrow> lines w' f = lines (world s) f)"
proof -
  have w: "w' = snd (snd (QueryStatus device (world s)))" by (simp add: assms(6))
  show ?thesis
    unfolding w
    using WRRotatorMoveTo_at_target [OF assms] QueryStatus_line [OF assms(2,3)] w
    by simp
qed

lemma demo_MoveTo_90:
  "QueryStatus demo_device (world (demo_state demo_device (demo_reply ''Mini''))) =
     (True, fst (snd (QueryStatus demo_device (demo_world (demo_reply ''Mini'')))),
      snd (snd (QueryStatus demo_device (demo_world (demo_reply ''Mini'')))))"
  "fdiv (int_to_float (mechanicalAngle
      (fst (snd (QueryStatus demo_device (demo_world (demo_reply ''Mini''))))))) 1000 = 90"
  "fst (QueryStatus demo_device (demo_world (demo_reply ''Mini'')))"
proof -
  have f1: "is_frame (''WandererRotator'' @ ''Mini'' @ ''A'')"
    using demo_frames by simp
  have p1: "sscanf_model (cstr (''WandererRotator'' @ ''Mini'' @ ''A'')) = Some ''Mini''"
    using demo_parse_models by simp
  show "QueryStatus demo_device (world (demo_state demo_device (demo_reply ''Mini''))) =
     (True, fst (snd (QueryStatus demo_device (demo_world (demo_reply ''Mini'')))),
      snd (snd (QueryStatus demo_device (demo_world (demo_reply ''Mini'')))))"
    by (simp add: demo_state_simps demo_QueryStatus [OF f1 p1])
  show "fdiv (int_to_float (mechanicalAngle
      (fst (snd (QueryStatus demo_device (demo_world (demo_reply ''Mini''))))))) 1000 = 90"
    by (simp add: demo_QueryStatus [OF f1 p1] demo_position)
  show "fst (QueryStatus demo_device (demo_world (demo_reply ''Mini'')))"
    by (simp add: demo_QueryStatus [OF f1 p1])
qed

text \<open>
  The theorem at the example device when the rotator reports 90000 millidegrees and the
  target is 90 degrees.
\<close>

theorem WRRotatorMoveTo_at_target_only_queries_witness:
  "g_devices (demo_state demo_device (demo_reply ''Mini'')) 0 = Some demo_device
   \<and> port demo_device = Some \<lparr>fd = 3\<rparr> \<and> (0::int) \<le> fd \<lparr>fd = 3\<rparr>
   \<and> (0::rat) \<le> 90 \<and> (90::rat) < 360
   \<and> fst (QueryStatus demo_device (world (demo_state demo_device (demo_reply ''Mini''))))
   \<and> fdiv (int_to_float (mechanicalAngle
        (fst (snd (QueryStatus demo_device (demo_world (demo_reply ''Mini''))))))) 1000 = 90
   \<and> fst (WRRotatorMoveTo 0 90 (demo_state demo_device (demo_reply ''Mini''))) = WR_SUCCESS
   \<and> sent (lines (world (snd (WRRotatorMoveTo 0 90
         (demo_state demo_device (demo_reply ''Mini''))))) 3) = [''1500001\<newline>'']
   \<and> listeners (world (snd (WRRotatorMoveTo 0 90
         (demo_state demo_device (demo_reply ''Mini''))))) = 0"
proof -
  have h: "g_devices (demo_state demo_device (demo_reply ''Mini'')) 0 = Some demo_device"
    by (rule demo_state_simps)
  have f: "(0::int) \<le> fd \<lparr>fd = 3\<rparr>" by simp
  have a: "(0::rat) \<le> 90" "(90::rat) < 360" by simp_all
  from WRRotatorMoveTo_at_target_only_queries
    [OF h demo_device_port(1) f a demo_MoveTo_90(1,2)]
  show ?thesis
    using h demo_MoveTo_90(2,3)
    by (simp add: demo_device_port demo_state_simps demo_world_line)
qed

text \<open>
  Against the claim's wording (no command is sent over the transport): the same call
  returns success and has written \<^verbatim>\<open>1500001\<close> to a line that had seen no write.
\<close>

theorem WRRotatorMoveTo_at_target_writes_counterexample:
  "g_devices (demo_state demo_device (demo_reply ''Mini'')) 0 = Some demo_device
   \<and> fdiv (int_to_float (mechanicalAngle
        (fst (snd (QueryStatus demo_device (demo_world (demo_reply ''Mini''))))))) 1000 = 90
   \<and> fst (WRRotatorMoveTo 0 90 (demo_state demo_device (demo_reply ''Mini''))) = WR_SUCCESS
   \<and> sent (lines (world (demo_state demo_device (demo_reply ''Mini''))) 3) = []
   \<and> sent (lines (world (snd (WRRotatorMoveTo 0 90
         (demo_state demo_device (demo_reply ''Mini''))))) 3) = [''1500001\<newline>'']"
proof -
  have h: "g_devices (demo_state demo_device (demo_reply ''Mini'')) 0 = Some demo_device"
    by (rule demo_state_simps)
  have f: "(0::int) \<le> fd \<lparr>fd = 3\<rparr>" by simp
  have a: "(0::rat) \<le> 90" "(90::rat) < 360" by simp_all
  note m = WRRotatorMoveTo_at_target [OF h demo_device_port(1) f a demo_MoveTo_90(1,2)]
  note l = QueryStatus_line(1) [OF demo_device_port(1) f,
      of "demo_world (demo_reply ''Mini'')"]
  show ?thesis
    using h demo_MoveTo_90(2) l
    by (simp add: m demo_state_simps demo_world_line)
qed

section \<open>The move command\<close>
























end
